theory Spec2Isabelle
  imports Main "HOL-Library.Sublist" "HOL-Library.AList"
begin

section \<open>Strings\<close>

text \<open>
  A JavaScript string is kept as the list of the bytes of its UTF-8 form, so every
  character outside ASCII is a run of bytes above 127. All the texts that the code
  searches for (table names, view names, keywords) are ASCII, and for an ASCII text
  \<open>t\<close> the test \<open>s.includes(t)\<close> on code units is the test for a contiguous run of bytes.
\<close>

definition str_includes :: "string \<Rightarrow> string \<Rightarrow> bool" where
  "str_includes s t = sublist t s"

text \<open>
  \<open>ascii_lower\<close> maps the letters A to Z to a to z and keeps every other byte. It is
  the folding of letter case that a regular expression with the flag \<open>i\<close> (and without
  the flag \<open>u\<close>) applies against an ASCII pattern, where no character outside ASCII
  matches a letter. It is not \<open>String.prototype.toLowerCase\<close>, which also changes
  characters outside ASCII (and maps the Kelvin sign to the letter k): that function
  of the runtime is a parameter below. The two agree on ASCII text.
\<close>

definition lower_char :: "char \<Rightarrow> char" where
  "lower_char c =
     (case map_of (zip ''ABCDEFGHIJKLMNOPQRSTUVWXYZ'' ''abcdefghijklmnopqrstuvwxyz'') c of
        Some d \<Rightarrow> d
      | None \<Rightarrow> c)"

definition ascii_lower :: "string \<Rightarrow> string" where
  "ascii_lower s = map lower_char s"

section \<open>The runtime and the engine\<close>

text \<open>
  A value of a cell of an answer of the engine: a number, a text or \<open>null\<close>.
  \<open>truthy\<close> is the test that \<open>||\<close> makes.
\<close>

datatype val = Num int | Str string | Null

fun truthy :: "val \<Rightarrow> bool" where
  "truthy (Num n) = (n \<noteq> 0)"
| "truthy (Str s) = (s \<noteq> [])"
| "truthy Null = False"

text \<open>
  A JavaScript \<open>Error\<close> with its message; \<open>error_text\<close> is what the template
  \<open>${error}\<close> prints for it: the name alone when the message is empty.
\<close>

datatype error = Error string

fun error_text :: "error \<Rightarrow> string" where
  "error_text (Error m) = (if m = [] then ''Error'' else ''Error: '' @ m)"

text \<open>
  The statements that the code sends to the engine, one constructor for each SQL
  template, with the names that the template splices in:
  \<^item> \<open>CreateStaging t f now days\<close>: create table \<open>t\<close> from the CSV file \<open>f\<close>, keeping the
    rows whose start date is not before the cutoff date, the day \<open>days\<close> days before the
    clock reading \<open>now\<close>;
  \<^item> \<open>CountRows t\<close>: select the number of rows of \<open>t\<close> as the column \<open>count\<close>;
  \<^item> \<open>DropTableIfExists t\<close>, \<open>DropTable t\<close>;
  \<^item> \<open>CreateFinal t s\<close>: create the typed table \<open>t\<close> from the staging table \<open>s\<close>;
  \<^item> \<open>CreateIndexStartdate t\<close>, \<open>CreateIndexType t\<close>: the two indexes on \<open>t\<close>;
  \<^item> \<open>Query q\<close>: the text \<open>q\<close> of a caller's query.
\<close>

datatype stmt =
    CreateStaging string string int int
  | CountRows string
  | DropTableIfExists string
  | CreateFinal string string
  | CreateIndexStartdate string
  | CreateIndexType string
  | DropTable string
  | Query string

text \<open>A row of an answer: the column names with their values, in column order.\<close>

type_synonym row = "(string \<times> val) list"

text \<open>
  What lies outside the code is a parameter: \<open>'e\<close> is the state of the world outside
  the process (the embedded engine with its tables, and the wall clock), \<open>send\<close> is the
  engine executing one statement on the connection (it answers with rows or rejects
  with an error), \<open>date_now\<close> reads the clock, \<open>sha256\<close> is the hex digest,
  \<open>toLowerCase\<close> is \<open>String.prototype.toLowerCase\<close>, \<open>text_gt_zero s\<close> is the comparison
  \<open>s > 0\<close> for a text \<open>s\<close> (the runtime converts the text to a number first), and
  \<open>rollingWindowDays\<close> is the configured window.
\<close>

record 'e system =
  send :: "'e \<Rightarrow> stmt \<Rightarrow> (error + row list) \<times> 'e"
  date_now :: "'e \<Rightarrow> int"
  sha256 :: "string \<Rightarrow> string"
  toLowerCase :: "string \<Rightarrow> string"
  text_gt_zero :: "string \<Rightarrow> bool"
  rollingWindowDays :: int

text \<open>\<open>v > 0\<close> for a value: \<open>null\<close> counts as the number 0.\<close>

definition greater_zero :: "'e system \<Rightarrow> val \<Rightarrow> bool" where
  "greater_zero E v =
     (case v of Num n \<Rightarrow> n > 0 | Str s \<Rightarrow> text_gt_zero E s | Null \<Rightarrow> False)"

section \<open>Query cache (src/core/cache.ts)\<close>

text \<open>
  The cache never looks inside a result. The field \<open>rowCount\<close> of a query result is
  \<open>rowCount_q\<close> here, the name \<open>rowCount\<close> being the field of a catalog entry.
\<close>

record QueryResult =
  columns :: "string list"
  rows :: "val list list"
  rowCount_q :: int
  executionTime :: int

record CachedResult =
  result :: QueryResult
  timestamp :: int
  ttl :: int

text \<open>
  The JavaScript \<open>Map\<close> keeps its keys in insertion order: an association list with
  distinct keys, where \<open>AList.update\<close> overwrites a present key in place and appends a
  new one, and \<open>AList.delete\<close> removes a key.
\<close>

record QueryCache =
  cache :: "(string \<times> CachedResult) list"
  maxSize :: int

definition defaultTTL :: int where
  "defaultTTL = 5 * 60 * 1000"

text \<open>
  \<open>getCacheKey\<close>: the SHA-256 hex digest of the query followed by the serialised
  parameters; \<open>params\<close> is \<open>None\<close> for a missing (falsy) parameter object and otherwise
  holds the text that \<open>JSON.stringify\<close> gives.
\<close>

definition getCacheKey :: "'e system \<Rightarrow> string \<Rightarrow> string option \<Rightarrow> string" where
  "getCacheKey E query params =
     sha256 E (query @ (case params of None \<Rightarrow> [] | Some p \<Rightarrow> p))"

definition getTTL :: "'e system \<Rightarrow> string \<Rightarrow> int" where
  "getTTL E query =
     (if str_includes (toLowerCase E query) ''group by'' \<or>
         str_includes (toLowerCase E query) ''avg('' \<or>
         str_includes (toLowerCase E query) ''sum(''
      then 10 * 60 * 1000
      else if str_includes (toLowerCase E query) ''current_date'' \<or>
              str_includes (toLowerCase E query) ''now()''
      then 60 * 1000
      else defaultTTL)"

text \<open>
  \<open>get\<close>: \<open>now\<close> is the reading of \<open>Date.now()\<close>. The result is the answer together
  with the cache after the call.
\<close>

definition get_cached ::
  "'e system \<Rightarrow> QueryCache \<Rightarrow> int \<Rightarrow> string \<Rightarrow> string option
     \<Rightarrow> QueryResult option \<times> QueryCache" where
  "get_cached E qc now query params =
     (let key = getCacheKey E query params in
      case map_of (cache qc) key of
        None \<Rightarrow> (None, qc)
      | Some cached \<Rightarrow>
          if now - timestamp cached > ttl cached
          then (None, qc\<lparr>cache := AList.delete key (cache qc)\<rparr>)
          else (Some (result cached), qc))"

text \<open>
  \<open>findOldestEntry\<close>: the loop over the entries in insertion order; \<open>oldestTime\<close> starts
  at \<open>Infinity\<close>, here \<open>None\<close>, below which every timestamp lies.
\<close>

fun findOldest_loop ::
  "(string \<times> CachedResult) list \<Rightarrow> string option \<Rightarrow> int option \<Rightarrow> string option" where
  "findOldest_loop [] oldestKey oldestTime = oldestKey"
| "findOldest_loop ((key, v) # rest) oldestKey oldestTime =
     (if (case oldestTime of None \<Rightarrow> True | Some t \<Rightarrow> timestamp v < t)
      then findOldest_loop rest (Some key) (Some (timestamp v))
      else findOldest_loop rest oldestKey oldestTime)"

definition findOldestEntry :: "(string \<times> CachedResult) list \<Rightarrow> string option" where
  "findOldestEntry c = findOldest_loop c None None"

text \<open>
  \<open>set\<close>: when the cache is full, the oldest key is deleted if \<open>findOldestEntry\<close> gave a
  truthy one (a key that is neither \<open>undefined\<close> nor the empty string); then the entry is
  stored under the key of the query.
\<close>

definition set_cached ::
  "'e system \<Rightarrow> QueryCache \<Rightarrow> int \<Rightarrow> string \<Rightarrow> QueryResult \<Rightarrow> string option
     \<Rightarrow> QueryCache" where
  "set_cached E qc now query res params =
     (let key = getCacheKey E query params;
          c1 = (if int (length (cache qc)) \<ge> maxSize qc
                then (case findOldestEntry (cache qc) of
                        None \<Rightarrow> cache qc
                      | Some oldestKey \<Rightarrow>
                          if oldestKey \<noteq> [] then AList.delete oldestKey (cache qc)
                          else cache qc)
                else cache qc)
      in qc\<lparr>cache :=
              AList.update key \<lparr>result = res, timestamp = now, ttl = getTTL E query\<rparr> c1\<rparr>)"




section \<open>File catalog (src/db/catalog.ts)\<close>

text \<open>
  \<open>rowCount\<close> is \<open>null\<close> or what \<open>markLoaded\<close> was given; \<open>lastAccessed\<close> is an optional
  \<open>Date\<close>, kept as its epoch milliseconds. The catalog is the \<open>Map\<close> from table names to
  entries, in insertion order.
\<close>

record CatalogEntry =
  path :: string
  loaded :: bool
  rowCount :: val
  lastAccessed :: "int option"

type_synonym FileCatalog = "(string \<times> CatalogEntry) list"

definition getEntry :: "'e system \<Rightarrow> FileCatalog \<Rightarrow> string \<Rightarrow> CatalogEntry option" where
  "getEntry E cat tableName = map_of cat (toLowerCase E tableName)"

text \<open>\<open>markLoaded\<close> and \<open>markUnloaded\<close> change the entry in place; \<open>now\<close> is \<open>new Date()\<close>.\<close>

definition markLoaded ::
  "'e system \<Rightarrow> FileCatalog \<Rightarrow> int \<Rightarrow> string \<Rightarrow> val \<Rightarrow> FileCatalog" where
  "markLoaded E cat now tableName n =
     (case map_of cat (toLowerCase E tableName) of
        None \<Rightarrow> cat
      | Some entry \<Rightarrow>
          AList.update (toLowerCase E tableName)
            (entry\<lparr>loaded := True, rowCount := n, lastAccessed := Some now\<rparr>) cat)"

definition markUnloaded :: "'e system \<Rightarrow> FileCatalog \<Rightarrow> string \<Rightarrow> FileCatalog" where
  "markUnloaded E cat tableName =
     (case map_of cat (toLowerCase E tableName) of
        None \<Rightarrow> cat
      | Some entry \<Rightarrow> AList.update (toLowerCase E tableName) (entry\<lparr>loaded := False\<rparr>) cat)"




definition getAllTables :: "FileCatalog \<Rightarrow> string list" where
  "getAllTables cat = map fst cat"

section \<open>The process state\<close>

text \<open>
  A call of \<open>ensureTableLoaded\<close> as it stands between two awaits. \<open>Settled r\<close>: the call
  has ended with \<open>r\<close>. \<open>Waiting t tmp s ph\<close>: the load of table \<open>t\<close> with the staging
  table \<open>tmp\<close> has handed the statement \<open>s\<close> to the engine and waits for the answer;
  the phase \<open>ph\<close> is the place in \<open>loadTable\<close> where it waits:
  \<^item> \<open>Created\<close>: for the creation of the staging table;
  \<^item> \<open>Counted\<close>: for the count of its rows;
  \<^item> \<open>Cleaning rest n\<close>: for a statement of \<open>cleanAndOptimizeTable\<close>, with the statements
    \<open>rest\<close> still to come and the row count \<open>n\<close> to be recorded;
  \<^item> \<open>DroppedEmpty\<close>: for the drop of the empty staging table;
  \<^item> \<open>Caught err\<close>: for the drop in the \<open>catch\<close> block, \<open>err\<close> being the error caught.
\<close>

datatype phase =
    Created
  | Counted
  | Cleaning "stmt list" val
  | DroppedEmpty
  | Caught error

datatype task =
    Settled "error + unit"
  | Waiting string string stmt phase

text \<open>
  The state of the process: the catalog, the query cache, the outside world, the
  statements that the engine has executed so far (oldest first), kept for stating
  which statements an operation issues, and the loads that are still running after
  the call that started them has ended.
\<close>

record 'e world =
  catalog :: FileCatalog
  qcache :: QueryCache
  db :: 'e
  issued :: "stmt list"
  running :: "task list"

text \<open>\<open>db.execute\<close> and \<open>db.run\<close> (src/db/database.ts): the latter drops the rows.\<close>

definition db_execute ::
  "'e system \<Rightarrow> 'e world \<Rightarrow> stmt \<Rightarrow> (error + row list) \<times> 'e world" where
  "db_execute E w s =
     (case send E (db w) s of
        (r, d) \<Rightarrow> (r, w\<lparr>db := d, issued := issued w @ [s]\<rparr>))"

definition db_run :: "'e system \<Rightarrow> 'e world \<Rightarrow> stmt \<Rightarrow> (error + unit) \<times> 'e world" where
  "db_run E w s =
     (case db_execute E w s of
        (Inl e, w1) \<Rightarrow> (Inl e, w1)
      | (Inr rs, w1) \<Rightarrow> (Inr (), w1))"

text \<open>A sequence of awaited \<open>db.run\<close> calls: the first rejection ends it.\<close>

fun run_all :: "'e system \<Rightarrow> 'e world \<Rightarrow> stmt list \<Rightarrow> (error + unit) \<times> 'e world" where
  "run_all E w [] = (Inr (), w)"
| "run_all E w (s # ss) =
     (case db_run E w s of
        (Inl e, w1) \<Rightarrow> (Inl e, w1)
      | (Inr u, w1) \<Rightarrow> run_all E w1 ss)"

section \<open>Table loader (src/db/loader.ts)\<close>

text \<open>
  The functions of this section are one call of the loader running from its start to
  its end with nothing else in between.
\<close>

definition cleanAndOptimizeTable ::
  "'e system \<Rightarrow> 'e world \<Rightarrow> string \<Rightarrow> string \<Rightarrow> (error + unit) \<times> 'e world" where
  "cleanAndOptimizeTable E w stagingTable finalTable =
     run_all E w
       [DropTableIfExists finalTable,
        CreateFinal finalTable stagingTable,
        CreateIndexStartdate finalTable,
        CreateIndexType finalTable,
        DropTable stagingTable]"

text \<open>
  \<open>countResult[0]?.count || 0\<close>: the \<open>count\<close> column of the first row when there is one
  and it is truthy, and the number 0 otherwise.
\<close>

definition count_or_zero :: "row list \<Rightarrow> val" where
  "count_or_zero countResult =
     (case countResult of
        [] \<Rightarrow> Num 0
      | r # _ \<Rightarrow>
          (case map_of r ''count'' of
             None \<Rightarrow> Num 0
           | Some v \<Rightarrow> if truthy v then v else Num 0))"

text \<open>The \<open>try\<close> block of \<open>loadTable\<close>.\<close>

definition loadTable_try ::
  "'e system \<Rightarrow> 'e world \<Rightarrow> string \<Rightarrow> string \<Rightarrow> string \<Rightarrow> (error + unit) \<times> 'e world" where
  "loadTable_try E w tableName filePath tempTableName =
     (case db_run E w
             (CreateStaging tempTableName filePath (date_now E (db w)) (rollingWindowDays E)) of
        (Inl e, w1) \<Rightarrow> (Inl e, w1)
      | (Inr u, w1) \<Rightarrow>
          (case db_execute E w1 (CountRows tempTableName) of
             (Inl e, w2) \<Rightarrow> (Inl e, w2)
           | (Inr countResult, w2) \<Rightarrow>
               (let n = count_or_zero countResult in
                if greater_zero E n then
                  (case cleanAndOptimizeTable E w2 tempTableName tableName of
                     (Inl e, w3) \<Rightarrow> (Inl e, w3)
                   | (Inr u, w3) \<Rightarrow>
                       (Inr (),
                        w3\<lparr>catalog :=
                             markLoaded E (catalog w3) (date_now E (db w3)) tableName n\<rparr>))
                else db_run E w2 (DropTableIfExists tempTableName))))"

text \<open>
  The \<open>catch\<close> block of \<open>loadTable\<close>, entered in the state \<open>w\<close> with the error \<open>err\<close>: it
  drops the staging table and throws a new error that wraps the caught one; when that
  drop is itself rejected, its error is the one that leaves the function.
\<close>

definition loadTable_catch ::
  "'e system \<Rightarrow> 'e world \<Rightarrow> string \<Rightarrow> string \<Rightarrow> error \<Rightarrow> (error + unit) \<times> 'e world" where
  "loadTable_catch E w tableName tempTableName err =
     (case db_run E w (DropTableIfExists tempTableName) of
        (Inl e2, w2) \<Rightarrow> (Inl e2, w2)
      | (Inr u, w2) \<Rightarrow>
          (Inl (Error (''Failed to load table '' @ tableName @ '': '' @ error_text err)),
           w2))"

definition loadTable ::
  "'e system \<Rightarrow> 'e world \<Rightarrow> string \<Rightarrow> string \<Rightarrow> (error + unit) \<times> 'e world" where
  "loadTable E w tableName filePath =
     (let tempTableName = tableName @ ''_staging'' in
      case loadTable_try E w tableName filePath tempTableName of
        (Inr u, w1) \<Rightarrow> (Inr (), w1)
      | (Inl err, w1) \<Rightarrow> loadTable_catch E w1 tableName tempTableName err)"

definition ensureTableLoaded ::
  "'e system \<Rightarrow> 'e world \<Rightarrow> string \<Rightarrow> (error + unit) \<times> 'e world" where
  "ensureTableLoaded E w tableName =
     (case getEntry E (catalog w) tableName of
        None \<Rightarrow> (Inl (Error (''Table '' @ tableName @ '' not found in catalog'')), w)
      | Some entry \<Rightarrow>
          if loaded entry
          then (Inr (),
                w\<lparr>catalog :=
                    AList.update (toLowerCase E tableName)
                      (entry\<lparr>lastAccessed := Some (date_now E (db w))\<rparr>) (catalog w)\<rparr>)
          else loadTable E w tableName (path entry))"

text \<open>\<open>unloadTable\<close>: a rejected drop is caught and logged, nothing is thrown.\<close>

definition unloadTable ::
  "'e system \<Rightarrow> 'e world \<Rightarrow> string \<Rightarrow> (error + unit) \<times> 'e world" where
  "unloadTable E w tableName =
     (case db_run E w (DropTableIfExists tableName) of
        (Inr u, w1) \<Rightarrow> (Inr (), w1\<lparr>catalog := markUnloaded E (catalog w1) tableName\<rparr>)
      | (Inl err, w1) \<Rightarrow> (Inr (), w1))"

text \<open>
  \<open>extractTableNames\<close>: the catalog names that occur in the lower-cased query, in
  catalog order (the names of a \<open>Map\<close> are distinct, so the \<open>Set\<close> drops nothing).
\<close>

definition extractTableNames :: "'e system \<Rightarrow> FileCatalog \<Rightarrow> string \<Rightarrow> string list" where
  "extractTableNames E cat query =
     (let queryLower = toLowerCase E query
      in filter (\<lambda>table. str_includes queryLower table) (getAllTables cat))"

section \<open>Loads that run together\<close>

text \<open>
  \<open>ensure_start\<close> is \<open>ensureTableLoaded\<close> from its call to its first await: an unknown
  table and a loaded table end the call at once, an unloaded table leaves it waiting
  for the creation of the staging table.
\<close>

definition ensure_start :: "'e system \<Rightarrow> 'e world \<Rightarrow> string \<Rightarrow> task \<times> 'e world" where
  "ensure_start E w tableName =
     (case getEntry E (catalog w) tableName of
        None \<Rightarrow> (Settled (Inl (Error (''Table '' @ tableName @ '' not found in catalog''))), w)
      | Some entry \<Rightarrow>
          if loaded entry
          then (Settled (Inr ()),
                w\<lparr>catalog :=
                    AList.update (toLowerCase E tableName)
                      (entry\<lparr>lastAccessed := Some (date_now E (db w))\<rparr>) (catalog w)\<rparr>)
          else (Waiting tableName (tableName @ ''_staging'')
                  (CreateStaging (tableName @ ''_staging'') (path entry)
                     (date_now E (db w)) (rollingWindowDays E))
                  Created,
                w))"

text \<open>The start of the \<open>catch\<close> block of \<open>loadTable\<close>.\<close>

definition catch_block :: "string \<Rightarrow> string \<Rightarrow> error \<Rightarrow> task" where
  "catch_block tableName tempTableName err =
     Waiting tableName tempTableName (DropTableIfExists tempTableName) (Caught err)"

text \<open>
  \<open>task_step\<close>: the engine executes the statement that a waiting call has handed over,
  and the call runs on to its next await or to its end.
\<close>

definition task_step :: "'e system \<Rightarrow> 'e world \<Rightarrow> task \<Rightarrow> task \<times> 'e world" where
  "task_step E w task =
     (case task of
        Settled r \<Rightarrow> (Settled r, w)
      | Waiting tableName tmp s ph \<Rightarrow>
          (case db_execute E w s of
             (Inl e, w1) \<Rightarrow>
               (case ph of
                  Caught err \<Rightarrow> (Settled (Inl e), w1)
                | _ \<Rightarrow> (catch_block tableName tmp e, w1))
           | (Inr rs, w1) \<Rightarrow>
               (case ph of
                  Created \<Rightarrow> (Waiting tableName tmp (CountRows tmp) Counted, w1)
                | Counted \<Rightarrow>
                    (let n = count_or_zero rs in
                     if greater_zero E n
                     then (Waiting tableName tmp (DropTableIfExists tableName)
                             (Cleaning
                                [CreateFinal tableName tmp,
                                 CreateIndexStartdate tableName,
                                 CreateIndexType tableName,
                                 DropTable tmp] n),
                           w1)
                     else (Waiting tableName tmp (DropTableIfExists tmp) DroppedEmpty, w1))
                | Cleaning rest n \<Rightarrow>
                    (case rest of
                       [] \<Rightarrow>
                         (Settled (Inr ()),
                          w1\<lparr>catalog :=
                               markLoaded E (catalog w1) (date_now E (db w1)) tableName n\<rparr>)
                     | s' # rest' \<Rightarrow> (Waiting tableName tmp s' (Cleaning rest' n), w1))
                | DroppedEmpty \<Rightarrow> (Settled (Inr ()), w1)
                | Caught err \<Rightarrow>
                    (Settled
                       (Inl (Error (''Failed to load table '' @ tableName @ '': '' @
                                    error_text err))),
                     w1))))"

text \<open>
  \<open>requiredTables.map(table => this.loader.ensureTableLoaded(table))\<close>: the calls are
  started one after the other, each running to its first await.
\<close>

fun start_all :: "'e system \<Rightarrow> 'e world \<Rightarrow> string list \<Rightarrow> task list \<times> 'e world" where
  "start_all E w [] = ([], w)"
| "start_all E w (table # rest) =
     (case ensure_start E w table of
        (t, w1) \<Rightarrow> (case start_all E w1 rest of (ts, w2) \<Rightarrow> (t # ts, w2)))"

fun is_waiting :: "task \<Rightarrow> bool" where
  "is_waiting (Waiting tableName tmp s ph) = True"
| "is_waiting (Settled r) = False"

definition rejections :: "task list \<Rightarrow> error list" where
  "rejections tasks =
     concat (map (\<lambda>t. case t of Settled (Inl e) \<Rightarrow> [e] | _ \<Rightarrow> []) tasks)"

definition waiting_ids :: "task list \<Rightarrow> nat list" where
  "waiting_ids tasks = filter (\<lambda>i. is_waiting (tasks ! i)) [0..<length tasks]"

text \<open>
  Which of the waiting calls gets its answer next is decided by the engine, outside
  the code: the schedule \<open>sched\<close> lists these choices, each a number that selects among
  the calls waiting at that moment; when the list is used up the first waiting call
  goes on.
\<close>

definition next_id :: "nat list \<Rightarrow> nat list \<Rightarrow> nat" where
  "next_id sched ids = (case sched of [] \<Rightarrow> hd ids | k # _ \<Rightarrow> ids ! (k mod length ids))"

text \<open>A bound on the statements that a call may still hand to the engine.\<close>

fun steps_left :: "task \<Rightarrow> nat" where
  "steps_left (Settled r) = 0"
| "steps_left (Waiting tableName tmp s Created) = 8"
| "steps_left (Waiting tableName tmp s Counted) = 7"
| "steps_left (Waiting tableName tmp s (Cleaning rest n)) = length rest + 2"
| "steps_left (Waiting tableName tmp s DroppedEmpty) = 2"
| "steps_left (Waiting tableName tmp s (Caught err)) = 1"

text \<open>
  \<open>Promise.all\<close> over the started calls. It rejects with the first rejection that
  happens (for calls that have failed before any await: the first in the list), and
  the calls that are still waiting then stay behind as running loads; it resolves when
  every call has ended well; otherwise the engine answers one of the waiting calls.
\<close>

function promise_all ::
  "'e system \<Rightarrow> nat list \<Rightarrow> 'e world \<Rightarrow> task list \<Rightarrow> (error + unit) \<times> 'e world" where
  "promise_all E sched w tasks =
     (case rejections tasks of
        e # _ \<Rightarrow> (Inl e, w\<lparr>running := running w @ filter is_waiting tasks\<rparr>)
      | [] \<Rightarrow>
          if waiting_ids tasks = [] then (Inr (), w)
          else
            (let i = next_id sched (waiting_ids tasks)
             in case task_step E w (tasks ! i) of
                  (t, w1) \<Rightarrow> promise_all E (tl sched) w1 (tasks[i := t])))"
  by pat_completeness auto
termination
proof (relation "measure (\<lambda>(E, sched, w, tasks). sum_list (map steps_left tasks))")
  show "wf (measure (\<lambda>(E :: 'e system, sched :: nat list, w :: 'e world, tasks).
              sum_list (map steps_left tasks)))"
    by simp
next
  fix E :: "'e system" and sched :: "nat list" and w :: "'e world" and tasks i t w1
  assume rej: "rejections tasks = []"
    and ids: "waiting_ids tasks \<noteq> []"
    and i: "i = next_id sched (waiting_ids tasks)"
    and tw: "(t, w1) = task_step E w (tasks ! i)"
  have "i \<in> set (waiting_ids tasks)"
  proof (cases sched)
    case Nil
    with i ids show ?thesis by (simp add: next_id_def)
  next
    case (Cons k ks)
    from ids have "k mod length (waiting_ids tasks) < length (waiting_ids tasks)" by simp
    with i Cons show ?thesis by (simp add: next_id_def)
  qed
  then have len: "i < length tasks" and wait: "is_waiting (tasks ! i)"
    by (simp_all add: waiting_ids_def)
  have t: "t = fst (task_step E w (tasks ! i))" using tw by (metis fst_conv)
  have less: "steps_left t < steps_left (tasks ! i)"
  proof (cases "tasks ! i")
    case (Settled r)
    with wait show ?thesis by simp
  next
    case (Waiting tableName tmp s ph)
    obtain r wa where d: "db_execute E w s = (r, wa)" by (cases "db_execute E w s")
    show ?thesis
    proof (cases r)
      case (Inl e)
      with Waiting d t show ?thesis
        by (cases ph) (simp_all add: task_step_def catch_block_def)
    next
      case (Inr rs)
      with Waiting d t show ?thesis
        by (cases ph) (simp_all add: task_step_def Let_def split: list.splits)
    qed
  qed
  have upd: "sum_list (map steps_left (tasks[i := t])) + steps_left (tasks ! i) =
             sum_list (map steps_left tasks) + steps_left t"
    using len
  proof (induction tasks arbitrary: i)
    case Nil
    then show ?case by simp
  next
    case (Cons a tasks)
    then show ?case by (cases i) auto
  qed
  from less upd have "sum_list (map steps_left (tasks[i := t])) < sum_list (map steps_left tasks)"
    by linarith
  then show "((E, tl sched, w1, tasks[i := t]), (E, sched, w, tasks))
      \<in> measure (\<lambda>(E, sched, w, tasks). sum_list (map steps_left tasks))"
    by simp
qed

section \<open>Memory manager (src/core/memory.ts)\<close>




section \<open>Query optimizer (src/core/optimizer.ts)\<close>

text \<open>
  The three view definitions of \<open>initializeViews\<close>, in the order in which they are
  put into the \<open>Map\<close>. Each text is the template literal of the source, line by line.
\<close>

definition daily_heart_rate_sql :: string where
  "daily_heart_rate_sql =
      ''\<newline>'' @
      ''      SELECT \<newline>'' @
      ''        DATE(startDate) as date,\<newline>'' @
      ''        AVG(value) as avg_hr,\<newline>'' @
      ''        MIN(value) as min_hr,\<newline>'' @
      ''        MAX(value) as max_hr,\<newline>'' @
      ''        COUNT('' @ ''*) as readings\<newline>'' @
      ''      FROM hkquantitytypeidentifierheartrate\<newline>'' @
      ''      GROUP BY DATE(startDate)\<newline>'' @
      ''    ''"

definition weekly_activity_sql :: string where
  "weekly_activity_sql =
      ''\<newline>'' @
      ''      SELECT \<newline>'' @
      ''        DATE_TRUNC('week', startDate) as week_start,\<newline>'' @
      ''        SUM(CASE WHEN type LIKE '%StepCount%' THEN value ELSE 0 END) as total_steps,\<newline>'' @
      ''        SUM(CASE WHEN type LIKE '%ActiveEnergyBurned%' THEN value ELSE 0 END) as active_calories,\<newline>'' @
      ''        SUM(CASE WHEN type LIKE '%DistanceWalkingRunning%' THEN value ELSE 0 END) as distance_km\<newline>'' @
      ''      FROM (\<newline>'' @
      ''        SELECT * FROM hkquantitytypeidentifierstepcount\<newline>'' @
      ''        UNION ALL\<newline>'' @
      ''        SELECT * FROM hkquantitytypeidentifieractiveenergyburned\<newline>'' @
      ''        UNION ALL\<newline>'' @
      ''        SELECT * FROM hkquantitytypeidentifierdistancewalkingrunning\<newline>'' @
      ''      )\<newline>'' @
      ''      GROUP BY DATE_TRUNC('week', startDate)\<newline>'' @
      ''    ''"

definition sleep_summary_sql :: string where
  "sleep_summary_sql =
      ''\<newline>'' @
      ''      SELECT \<newline>'' @
      ''        DATE(startDate) as sleep_date,\<newline>'' @
      ''        SUM(CASE WHEN type LIKE '%AsleepCore%' THEN value ELSE 0 END) / 3600 as core_hours,\<newline>'' @
      ''        SUM(CASE WHEN type LIKE '%AsleepDeep%' THEN value ELSE 0 END) / 3600 as deep_hours,\<newline>'' @
      ''        SUM(CASE WHEN type LIKE '%AsleepREM%' THEN value ELSE 0 END) / 3600 as rem_hours,\<newline>'' @
      ''        SUM(value) / 3600 as total_hours\<newline>'' @
      ''      FROM hkcategorytypeidentifiersleepanalysis\<newline>'' @
      ''      WHERE type LIKE '%Asleep%'\<newline>'' @
      ''      GROUP BY DATE(startDate)\<newline>'' @
      ''    ''"

definition viewDefinitions :: "(string \<times> string) list" where
  "viewDefinitions =
     [(''daily_heart_rate'', daily_heart_rate_sql),
      (''weekly_activity'', weekly_activity_sql),
      (''sleep_summary'', sleep_summary_sql)]"

text \<open>
  \<open>s.replace(new RegExp(pat, 'gi'), rep)\<close> for a pattern that is plain ASCII text and a
  replacement without \<open>$\<close> (the view names are letters and underscores, the view texts
  have no \<open>$\<close>): scanning from the left, every place where the pattern matches with
  the case of ASCII letters ignored is replaced and the scan goes on behind the match.
  The empty pattern matches before every character and at the end.
\<close>

function replace_gi :: "string \<Rightarrow> string \<Rightarrow> string \<Rightarrow> string" where
  "replace_gi pat rep [] = (if pat = [] then rep else [])"
| "replace_gi pat rep (c # s) =
     (if pat = [] then rep @ c # replace_gi pat rep s
      else if prefix (ascii_lower pat) (ascii_lower (c # s))
      then rep @ replace_gi pat rep (drop (length pat) (c # s))
      else c # replace_gi pat rep s)"
  by pat_completeness auto
termination
  by (relation "measure (\<lambda>(pat, rep, s). length s)") auto

text \<open>
  The loop over the views: the test looks at the lower-cased query as it came in, the
  replacement is made in the text rewritten so far.
\<close>

fun substituteViews ::
  "'e system \<Rightarrow> (string \<times> string) list \<Rightarrow> string \<Rightarrow> string \<Rightarrow> string" where
  "substituteViews E [] query optimized = optimized"
| "substituteViews E ((viewName, viewDef) # views) query optimized =
     substituteViews E views query
       (if str_includes (toLowerCase E query) viewName
        then replace_gi viewName (''('' @ viewDef @ '')'') optimized
        else optimized)"

text \<open>
  \<open>optimizeQuery\<close>: the loads of the required tables are started, \<open>Promise.all\<close> is
  awaited under the schedule \<open>sched\<close>, and when it resolves the views are substituted.
\<close>

definition optimizeQuery ::
  "'e system \<Rightarrow> nat list \<Rightarrow> 'e world \<Rightarrow> string \<Rightarrow> (error + string) \<times> 'e world" where
  "optimizeQuery E sched w query =
     (let requiredTables = extractTableNames E (catalog w) query in
      case start_all E w requiredTables of
        (tasks, w0) \<Rightarrow>
          (case promise_all E sched w0 tasks of
             (Inl e, w1) \<Rightarrow> (Inl e, w1)
           | (Inr u, w1) \<Rightarrow> (Inr (substituteViews E viewDefinitions query query), w1)))"

section \<open>The query tool (src/tools/health-query.ts)\<close>

definition forbidden :: "string list" where
  "forbidden =
     [''drop'', ''delete'', ''truncate'', ''insert'', ''update'', ''create table'', ''alter'']"

fun forbidden_loop :: "string \<Rightarrow> string list \<Rightarrow> error + unit" where
  "forbidden_loop queryLower [] = Inr ()"
| "forbidden_loop queryLower (keyword # rest) =
     (if str_includes queryLower keyword
      then Inl (Error (''Query contains forbidden keyword: '' @ keyword))
      else forbidden_loop queryLower rest)"

definition validateQuery :: "'e system \<Rightarrow> string \<Rightarrow> error + unit" where
  "validateQuery E query =
     (let queryLower = toLowerCase E query in
      case forbidden_loop queryLower forbidden of
        Inl e \<Rightarrow> Inl e
      | Inr u \<Rightarrow>
          if \<not> str_includes queryLower ''select''
          then Inl (Error ''Only SELECT queries are allowed'')
          else Inr ())"

text \<open>
  The executor that \<open>execute\<close> hands to the cache: it sends the rewritten query to the
  engine and shapes the rows into a query result.
\<close>

definition run_query ::
  "'e system \<Rightarrow> string \<Rightarrow> 'e world \<Rightarrow> (error + QueryResult) \<times> 'e world" where
  "run_query E optimizedQuery w =
     (let startTime = date_now E (db w) in
      case db_execute E w (Query optimizedQuery) of
        (Inl e, w1) \<Rightarrow> (Inl e, w1)
      | (Inr rs, w1) \<Rightarrow>
          (Inr \<lparr>columns = (case rs of [] \<Rightarrow> [] | r # _ \<Rightarrow> map fst r),
                rows = map (map snd) rs,
                rowCount_q = int (length rs),
                executionTime = date_now E (db w1) - startTime\<rparr>,
           w1))"

text \<open>\<open>QueryCache.getOrExecute\<close>, on the cache of the process.\<close>

definition getOrExecute ::
  "'e system \<Rightarrow> 'e world \<Rightarrow> string \<Rightarrow> ('e world \<Rightarrow> (error + QueryResult) \<times> 'e world)
     \<Rightarrow> string option \<Rightarrow> (error + QueryResult) \<times> 'e world" where
  "getOrExecute E w query executor params =
     (case get_cached E (qcache w) (date_now E (db w)) query params of
        (Some cached, qc1) \<Rightarrow> (Inr cached, w\<lparr>qcache := qc1\<rparr>)
      | (None, qc1) \<Rightarrow>
          (case executor (w\<lparr>qcache := qc1\<rparr>) of
             (Inl e, w1) \<Rightarrow> (Inl e, w1)
           | (Inr res, w1) \<Rightarrow>
               (Inr res,
                w1\<lparr>qcache :=
                     set_cached E (qcache w1) (date_now E (db w1)) query res params\<rparr>)))"

text \<open>
  \<open>HealthQueryTool.execute\<close> up to the shaping of the output: validation, the
  optimizer, then the cache with the engine behind it.
\<close>

definition execute_tool ::
  "'e system \<Rightarrow> nat list \<Rightarrow> 'e world \<Rightarrow> string \<Rightarrow> (error + QueryResult) \<times> 'e world" where
  "execute_tool E sched w query =
     (case validateQuery E query of
        Inl e \<Rightarrow> (Inl e, w)
      | Inr u \<Rightarrow>
          (case optimizeQuery E sched w query of
             (Inl e, w1) \<Rightarrow> (Inl e, w1)
           | (Inr optimizedQuery, w1) \<Rightarrow>
               getOrExecute E w1 optimizedQuery (run_query E optimizedQuery) None))"

section \<open>Values for concrete runs\<close>

text \<open>
  Stand-ins for the functions of the runtime in runs on ASCII text without text
  counts: a digest that is injective and never empty, as a hex digest is; the
  lower-casing of ASCII, which is what \<open>toLowerCase\<close> does there; and the comparison
  with zero of a text of decimal digits.
\<close>

definition tag_digest :: "string \<Rightarrow> string" where
  "tag_digest s = CHR ''#'' # s"

definition digits_gt_zero :: "string \<Rightarrow> bool" where
  "digits_gt_zero s =
     (s \<noteq> [] \<and> list_all (\<lambda>c. c \<in> set ''0123456789'') s \<and> \<not> list_all (\<lambda>c. c = CHR ''0'') s)"

definition sample_result :: QueryResult where
  "sample_result = \<lparr>columns = [''n''], rows = [[Num 1]], rowCount_q = 1, executionTime = 3\<rparr>"

text \<open>
  Engines: one that accepts every statement and answers with no rows, one that rejects
  every conditional drop, one that rejects the creation of a staging table, one whose
  staging tables count zero rows, one that also rejects the conditional drops, and
  one that rejects every query of a caller, as for a table it does not have.
\<close>

definition engine :: "(unit \<Rightarrow> stmt \<Rightarrow> (error + row list) \<times> unit) \<Rightarrow> unit system" where
  "engine f =
     \<lparr>send = f, date_now = (\<lambda>d. 0), sha256 = tag_digest, toLowerCase = ascii_lower,
      text_gt_zero = digits_gt_zero, rollingWindowDays = 90\<rparr>"

definition accept_all :: "unit system" where
  "accept_all = engine (\<lambda>d s. (Inr [], d))"

definition reject_drops :: "unit system" where
  "reject_drops =
     engine (\<lambda>d s. case s of
                DropTableIfExists t \<Rightarrow> (Inl (Error ''IO Error: database is locked''), d)
              | _ \<Rightarrow> (Inr [], d))"

definition reject_create :: "unit system" where
  "reject_create =
     engine (\<lambda>d s. case s of
                CreateStaging t f n k \<Rightarrow>
                  (Inl (Error ''Out of Memory Error: could not allocate block''), d)
              | _ \<Rightarrow> (Inr [], d))"

definition empty_window :: "unit system" where
  "empty_window =
     engine (\<lambda>d s. case s of
                CountRows t \<Rightarrow> (Inr [[(''count'', Num 0)]], d)
              | _ \<Rightarrow> (Inr [], d))"

definition empty_window_locked :: "unit system" where
  "empty_window_locked =
     engine (\<lambda>d s. case s of
                CountRows t \<Rightarrow> (Inr [[(''count'', Num 0)]], d)
              | DropTableIfExists t \<Rightarrow> (Inl (Error ''IO Error: database is locked''), d)
              | _ \<Rightarrow> (Inr [], d))"

definition reject_queries :: "unit system" where
  "reject_queries =
     engine (\<lambda>d s. case s of
                Query q \<Rightarrow> (Inl (Error ''Catalog Error: Table does not exist!''), d)
              | _ \<Rightarrow> (Inr [], d))"

text \<open>A full cache of capacity two, and three requests for a cache of capacity two.\<close>

definition two_entries :: QueryCache where
  "two_entries =
     \<lparr>cache = [(tag_digest ''select 1'', \<lparr>result = sample_result, timestamp = 1, ttl = 300000\<rparr>),
               (tag_digest ''select 2'', \<lparr>result = sample_result, timestamp = 2, ttl = 300000\<rparr>)],
      maxSize = 2\<rparr>"


text \<open>
  Worlds whose catalog holds the step count table, loaded and not loaded, one with
  two loaded tables, of which the one put into the catalog first was accessed last,
  and one with the same two tables not loaded.
\<close>

definition steps_loaded :: "unit world" where
  "steps_loaded =
     \<lparr>catalog =
        [(''hkquantitytypeidentifierstepcount'',
          \<lparr>path = ''/data/HKQuantityTypeIdentifierStepCount.csv'', loaded = True,
           rowCount = Num 5, lastAccessed = Some 0\<rparr>)],
      qcache = \<lparr>cache = [], maxSize = 100\<rparr>, db = (), issued = [], running = []\<rparr>"

definition steps_unloaded :: "unit world" where
  "steps_unloaded =
     \<lparr>catalog =
        [(''hkquantitytypeidentifierstepcount'',
          \<lparr>path = ''/data/HKQuantityTypeIdentifierStepCount.csv'', loaded = False,
           rowCount = Null, lastAccessed = None\<rparr>)],
      qcache = \<lparr>cache = [], maxSize = 100\<rparr>, db = (), issued = [], running = []\<rparr>"


definition two_unloaded :: "unit world" where
  "two_unloaded =
     \<lparr>catalog =
        [(''hkquantitytypeidentifierheartrate'',
          \<lparr>path = ''/data/HKQuantityTypeIdentifierHeartRate.csv'', loaded = False,
           rowCount = Null, lastAccessed = None\<rparr>),
         (''hkquantitytypeidentifierstepcount'',
          \<lparr>path = ''/data/HKQuantityTypeIdentifierStepCount.csv'', loaded = False,
           rowCount = Null, lastAccessed = None\<rparr>)],
      qcache = \<lparr>cache = [], maxSize = 100\<rparr>, db = (), issued = [], running = []\<rparr>"

section \<open>Facts about strings\<close>

lemmas str_eval = str_includes_def ascii_lower_def lower_char_def sublist_code

lemma lower_char_idem: "lower_char (lower_char c) = lower_char c"
  by (simp add: lower_char_def)

lemma ascii_lower_idem: "ascii_lower (ascii_lower s) = ascii_lower s"
  by (simp add: ascii_lower_def lower_char_idem)

lemma ascii_lower_append: "ascii_lower (a @ b) = ascii_lower a @ ascii_lower b"
  by (simp add: ascii_lower_def)

lemma length_ascii_lower: "length (ascii_lower s) = length s"
  by (simp add: ascii_lower_def)

section \<open>Facts about the association lists\<close>

lemma length_delete_present:
  "distinct (map fst c) \<Longrightarrow> k \<in> fst ` set c \<Longrightarrow> length (AList.delete k c) = length c - 1"
proof (induction c)
  case Nil
  then show ?case by simp
next
  case (Cons x c)
  show ?case
  proof (cases "fst x = k")
    case True
    with Cons.prems have "k \<notin> fst ` set c" by auto
    then have "AList.delete k c = c" by (simp add: AList.delete_id)
    with True show ?thesis by (cases x) simp
  next
    case False
    with Cons.prems have "k \<in> fst ` set c" by auto
    then have "c \<noteq> []" by auto
    then have "0 < length c" by simp
    with Cons False \<open>k \<in> fst ` set c\<close> show ?thesis by (cases x) simp
  qed
qed


lemma length_update_present:
  "k \<in> fst ` set c \<Longrightarrow> length (AList.update k v c) = length c"
  by (induction c) auto


section \<open>The query cache\<close>

subsection \<open>The oldest entry\<close>

text \<open>
  Started with a candidate, the loop ends with the candidate if no later entry is
  strictly older, and otherwise with an entry of the list that no entry is older than.
\<close>

lemma findOldest_loop_Some:
  "\<exists>k. findOldest_loop c (Some k0) (Some t0) = Some k \<and>
     ((k = k0 \<and> (\<forall>e\<in>snd ` set c. t0 \<le> timestamp e)) \<or>
      (\<exists>e. (k, e) \<in> set c \<and> timestamp e < t0 \<and>
           (\<forall>e'\<in>snd ` set c. timestamp e \<le> timestamp e')))"
proof (induction c arbitrary: k0 t0)
  case Nil
  then show ?case by simp
next
  case (Cons x c)
  obtain key v where x: "x = (key, v)" by (cases x)
  show ?case
  proof (cases "timestamp v < t0")
    case True
    from Cons.IH [of key "timestamp v"] obtain k where
      k: "findOldest_loop c (Some key) (Some (timestamp v)) = Some k"
      and d: "(k = key \<and> (\<forall>e\<in>snd ` set c. timestamp v \<le> timestamp e)) \<or>
         (\<exists>e. (k, e) \<in> set c \<and> timestamp e < timestamp v \<and>
              (\<forall>e'\<in>snd ` set c. timestamp e \<le> timestamp e'))"
      by blast
    have f: "findOldest_loop (x # c) (Some k0) (Some t0) = Some k"
      using k x True by simp
    from d show ?thesis
    proof
      assume a: "k = key \<and> (\<forall>e\<in>snd ` set c. timestamp v \<le> timestamp e)"
      have "(k, v) \<in> set (x # c) \<and> timestamp v < t0 \<and>
              (\<forall>e'\<in>snd ` set (x # c). timestamp v \<le> timestamp e')"
        using a x True by auto
      with f show ?thesis by blast
    next
      assume "\<exists>e. (k, e) \<in> set c \<and> timestamp e < timestamp v \<and>
                (\<forall>e'\<in>snd ` set c. timestamp e \<le> timestamp e')"
      then obtain e where e: "(k, e) \<in> set c" "timestamp e < timestamp v"
        "\<forall>e'\<in>snd ` set c. timestamp e \<le> timestamp e'" by blast
      have "(k, e) \<in> set (x # c) \<and> timestamp e < t0 \<and>
              (\<forall>e'\<in>snd ` set (x # c). timestamp e \<le> timestamp e')"
        using e x True by auto
      with f show ?thesis by blast
    qed
  next
    case False
    from Cons.IH [of k0 t0] obtain k where
      k: "findOldest_loop c (Some k0) (Some t0) = Some k"
      and d: "(k = k0 \<and> (\<forall>e\<in>snd ` set c. t0 \<le> timestamp e)) \<or>
         (\<exists>e. (k, e) \<in> set c \<and> timestamp e < t0 \<and>
              (\<forall>e'\<in>snd ` set c. timestamp e \<le> timestamp e'))"
      by blast
    have f: "findOldest_loop (x # c) (Some k0) (Some t0) = Some k"
      using k x False by simp
    from d show ?thesis
    proof
      assume a: "k = k0 \<and> (\<forall>e\<in>snd ` set c. t0 \<le> timestamp e)"
      have "k = k0 \<and> (\<forall>e\<in>snd ` set (x # c). t0 \<le> timestamp e)"
        using a x False by auto
      with f show ?thesis by blast
    next
      assume "\<exists>e. (k, e) \<in> set c \<and> timestamp e < t0 \<and>
                (\<forall>e'\<in>snd ` set c. timestamp e \<le> timestamp e')"
      then obtain e where e: "(k, e) \<in> set c" "timestamp e < t0"
        "\<forall>e'\<in>snd ` set c. timestamp e \<le> timestamp e'" by blast
      have "(k, e) \<in> set (x # c) \<and> timestamp e < t0 \<and>
              (\<forall>e'\<in>snd ` set (x # c). timestamp e \<le> timestamp e')"
        using e x False by auto
      with f show ?thesis by blast
    qed
  qed
qed

lemma findOldestEntry_min:
  assumes "c \<noteq> []"
  shows "\<exists>k e. findOldestEntry c = Some k \<and> (k, e) \<in> set c \<and>
           (\<forall>e'\<in>snd ` set c. timestamp e \<le> timestamp e')"
proof -
  from assms obtain key v rest where c: "c = (key, v) # rest" by (cases c) auto
  from findOldest_loop_Some [of rest key "timestamp v"] obtain k where
    k: "findOldest_loop rest (Some key) (Some (timestamp v)) = Some k"
    and d: "(k = key \<and> (\<forall>e\<in>snd ` set rest. timestamp v \<le> timestamp e)) \<or>
       (\<exists>e. (k, e) \<in> set rest \<and> timestamp e < timestamp v \<and>
            (\<forall>e'\<in>snd ` set rest. timestamp e \<le> timestamp e'))"
    by blast
  have f: "findOldestEntry c = Some k" using k c by (simp add: findOldestEntry_def)
  from d show ?thesis
  proof
    assume "k = key \<and> (\<forall>e\<in>snd ` set rest. timestamp v \<le> timestamp e)"
    then show ?thesis using f c by auto
  next
    assume "\<exists>e. (k, e) \<in> set rest \<and> timestamp e < timestamp v \<and>
              (\<forall>e'\<in>snd ` set rest. timestamp e \<le> timestamp e')"
    then obtain e where "(k, e) \<in> set rest" "timestamp e < timestamp v"
       "\<forall>e'\<in>snd ` set rest. timestamp e \<le> timestamp e'" by blast
    then show ?thesis using f c by (intro exI [of _ k] exI [of _ e]) auto
  qed
qed

subsection \<open>Storing\<close>



lemma set_cached_full:
  assumes full: "int (length (cache qc)) \<ge> maxSize qc"
    and ne: "cache qc \<noteq> []"
    and keys: "[] \<notin> fst ` set (cache qc)"
  shows "\<exists>ko eo. findOldestEntry (cache qc) = Some ko \<and> (ko, eo) \<in> set (cache qc) \<and>
           (\<forall>e'\<in>snd ` set (cache qc). timestamp eo \<le> timestamp e') \<and>
           cache (set_cached E qc now query res params) =
             AList.update (getCacheKey E query params)
               \<lparr>result = res, timestamp = now, ttl = getTTL E query\<rparr>
               (AList.delete ko (cache qc))"
proof -
  from findOldestEntry_min [OF ne] obtain ko eo where
    o: "findOldestEntry (cache qc) = Some ko" "(ko, eo) \<in> set (cache qc)"
       "\<forall>e'\<in>snd ` set (cache qc). timestamp eo \<le> timestamp e'"
    by blast
  from o(2) keys have "ko \<noteq> []" by force
  with full o(1) have "cache (set_cached E qc now query res params) =
             AList.update (getCacheKey E query params)
               \<lparr>result = res, timestamp = now, ttl = getTTL E query\<rparr>
               (AList.delete ko (cache qc))"
    by (simp add: set_cached_def Let_def)
  with o show ?thesis by blast
qed






lemmas cache_eval =
  get_cached_def set_cached_def getCacheKey_def findOldestEntry_def getTTL_def
  defaultTTL_def tag_digest_def accept_all_def engine_def Let_def

subsection \<open>Expiry\<close>

text \<open>
  Claim C2, as amended. A \<open>get\<close> at time \<open>now\<close> for a key stored with creation time
  \<open>timestamp\<close> and time-to-live \<open>ttl\<close> returns the stored result if and only if
  \<open>now - timestamp \<le> ttl\<close>, and then leaves the cache as it is; otherwise it returns
  nothing and removes that entry and no other. The test of the code is
  \<open>now - timestamp > ttl\<close>, so at \<open>now - timestamp = ttl\<close> the entry is still served.
\<close>

theorem get_cached_ttl:
  assumes "map_of (cache qc) (getCacheKey E query params) = Some e"
  shows "((fst (get_cached E qc now query params) = Some (result e)) = (now - timestamp e \<le> ttl e)) \<and>
         (if now - timestamp e \<le> ttl e
          then get_cached E qc now query params = (Some (result e), qc)
          else fst (get_cached E qc now query params) = None \<and>
               map_of (cache (snd (get_cached E qc now query params))) =
                 (map_of (cache qc))(getCacheKey E query params := None) \<and>
               maxSize (snd (get_cached E qc now query params)) = maxSize qc)"
  using assms by (simp add: get_cached_def Let_def AList.delete_conv')

text \<open>
  An entry stored at time 0 with the short time-to-live of 60000 is served at 59999
  and is removed at 60001.
\<close>

theorem get_cached_ttl_witness:
  "map_of (cache (set_cached accept_all \<lparr>cache = [], maxSize = 100\<rparr> 0 ''select now()'' sample_result None))
      (getCacheKey accept_all ''select now()'' None)
     = Some \<lparr>result = sample_result, timestamp = 0, ttl = 60000\<rparr> \<and>
   fst (get_cached accept_all
          (set_cached accept_all \<lparr>cache = [], maxSize = 100\<rparr> 0 ''select now()'' sample_result None)
          59999 ''select now()'' None) = Some sample_result \<and>
   fst (get_cached accept_all
          (set_cached accept_all \<lparr>cache = [], maxSize = 100\<rparr> 0 ''select now()'' sample_result None)
          60001 ''select now()'' None) = None \<and>
   cache (snd (get_cached accept_all
          (set_cached accept_all \<lparr>cache = [], maxSize = 100\<rparr> 0 ''select now()'' sample_result None)
          60001 ''select now()'' None)) = []"
proof -
  let ?qc = "set_cached accept_all \<lparr>cache = [], maxSize = 100\<rparr> 0 ''select now()'' sample_result None"
  let ?e = "\<lparr>result = sample_result, timestamp = 0, ttl = 60000\<rparr>"
  have h: "map_of (cache ?qc) (getCacheKey accept_all ''select now()'' None) = Some ?e"
    by (simp add: cache_eval str_eval)
  have a: "fst (get_cached accept_all ?qc 59999 ''select now()'' None) = Some sample_result"
    using get_cached_ttl [OF h, of 59999] by simp
  have b: "fst (get_cached accept_all ?qc 60001 ''select now()'' None) = None"
    using get_cached_ttl [OF h, of 60001] by simp
  have c: "cache (snd (get_cached accept_all ?qc 60001 ''select now()'' None)) = []"
    by (simp add: cache_eval str_eval)
  from h a b c show ?thesis by simp
qed

text \<open>
  Claim C2 as stated fails at the boundary: the entry stored at time 0 with a
  time-to-live of 60000 is returned by a \<open>get\<close> at time 60000, where
  \<open>now - createdAt < ttlMs\<close> is false.
\<close>

theorem get_cached_ttl_counterexample:
  "map_of (cache (set_cached accept_all \<lparr>cache = [], maxSize = 100\<rparr> 0 ''select now()'' sample_result None))
      (getCacheKey accept_all ''select now()'' None)
     = Some \<lparr>result = sample_result, timestamp = 0, ttl = 60000\<rparr> \<and>
   fst (get_cached accept_all
          (set_cached accept_all \<lparr>cache = [], maxSize = 100\<rparr> 0 ''select now()'' sample_result None)
          60000 ''select now()'' None) = Some sample_result \<and>
   \<not> ((60000::int) - 0 < 60000)"
  by (simp add: cache_eval str_eval)

subsection \<open>The time-to-live that is assigned\<close>

text \<open>
  Claim C8, as amended. For a query whose text mentions the current moment
  (\<open>current_date\<close> or \<open>now()\<close>, in any letter case), \<open>set\<close> stores the entry with the short
  time-to-live of one minute when the text has none of \<open>group by\<close>, \<open>avg(\<close>, \<open>sum(\<close>, and
  with the long time-to-live of ten minutes when it has one of them: the test for an
  aggregate comes first.
\<close>

theorem set_cached_ttl_current_moment:
  assumes "str_includes (toLowerCase E query) ''current_date'' \<or>
           str_includes (toLowerCase E query) ''now()''"
  shows "map_of (cache (set_cached E qc now query res params)) (getCacheKey E query params) =
           Some \<lparr>result = res, timestamp = now,
                 ttl = (if str_includes (toLowerCase E query) ''group by'' \<or>
                           str_includes (toLowerCase E query) ''avg('' \<or>
                           str_includes (toLowerCase E query) ''sum(''
                        then 600000 else 60000)\<rparr>"
  using assms by (simp add: set_cached_def Let_def AList.update_conv' getTTL_def)

theorem set_cached_ttl_current_moment_witness:
  "str_includes (toLowerCase accept_all ''SELECT * FROM t WHERE d = CURRENT_DATE'') ''current_date'' \<and>
   map_of (cache (set_cached accept_all \<lparr>cache = [], maxSize = 100\<rparr> 7
                    ''SELECT * FROM t WHERE d = CURRENT_DATE'' sample_result None))
      (getCacheKey accept_all ''SELECT * FROM t WHERE d = CURRENT_DATE'' None) =
     Some \<lparr>result = sample_result, timestamp = 7, ttl = 60000\<rparr>"
proof -
  let ?q = "''SELECT * FROM t WHERE d = CURRENT_DATE''"
  have h: "str_includes (toLowerCase accept_all ?q) ''current_date''"
    by (simp add: str_eval accept_all_def engine_def)
  have n: "\<not> (str_includes (toLowerCase accept_all ?q) ''group by'' \<or>
               str_includes (toLowerCase accept_all ?q) ''avg('' \<or>
               str_includes (toLowerCase accept_all ?q) ''sum('')"
    by (simp add: str_eval accept_all_def engine_def)
  have "str_includes (toLowerCase accept_all ?q) ''current_date'' \<or> str_includes (toLowerCase accept_all ?q) ''now()''"
    using h by simp
  from set_cached_ttl_current_moment
    [OF this, where qc = "\<lparr>cache = [], maxSize = 100\<rparr>" and now = 7 and res = sample_result
       and params = None]
  have "map_of (cache (set_cached accept_all \<lparr>cache = [], maxSize = 100\<rparr> 7 ?q sample_result None))
      (getCacheKey accept_all ?q None) =
     Some \<lparr>result = sample_result, timestamp = 7, ttl = 60000\<rparr>"
    using n by simp
  with h show ?thesis by simp
qed

text \<open>
  Claim C8 as stated fails: a query that averages and mentions \<open>CURRENT_DATE\<close> is stored
  with 600000 ms, not with the short 60000 ms.
\<close>

theorem set_cached_ttl_current_moment_counterexample:
  "str_includes (toLowerCase accept_all ''SELECT AVG(value) FROM t WHERE d = CURRENT_DATE'') ''current_date'' \<and>
   map_of (cache (set_cached accept_all \<lparr>cache = [], maxSize = 100\<rparr> 7
                    ''SELECT AVG(value) FROM t WHERE d = CURRENT_DATE'' sample_result None))
      (getCacheKey accept_all ''SELECT AVG(value) FROM t WHERE d = CURRENT_DATE'' None) =
     Some \<lparr>result = sample_result, timestamp = 7, ttl = 600000\<rparr>"
  by (simp add: cache_eval str_eval)

subsection \<open>Eviction at capacity\<close>




text \<open>
  Claim C9. When the cache holds exactly \<open>maxSize\<close> entries and \<open>set\<close> is called for a key
  that is present, the oldest entry is deleted first and then the key is written. When
  the oldest entry has another key, that entry is lost and \<open>maxSize - 1\<close> entries remain.
\<close>

theorem set_cached_overwrite_at_capacity:
  assumes full: "int (length (cache qc)) = maxSize qc"
    and dist: "distinct (map fst (cache qc))"
    and keys: "[] \<notin> fst ` set (cache qc)"
    and present: "map_of (cache qc) (getCacheKey E query params) = Some old"
  shows "\<exists>ko eo. findOldestEntry (cache qc) = Some ko \<and> (ko, eo) \<in> set (cache qc) \<and>
           (\<forall>e'\<in>snd ` set (cache qc). timestamp eo \<le> timestamp e') \<and>
           cache (set_cached E qc now query res params) =
             AList.update (getCacheKey E query params)
               \<lparr>result = res, timestamp = now, ttl = getTTL E query\<rparr>
               (AList.delete ko (cache qc)) \<and>
           map_of (cache (set_cached E qc now query res params)) (getCacheKey E query params) =
             Some \<lparr>result = res, timestamp = now, ttl = getTTL E query\<rparr> \<and>
           (ko \<noteq> getCacheKey E query params \<longrightarrow>
              map_of (cache (set_cached E qc now query res params)) ko = None \<and>
              int (length (cache (set_cached E qc now query res params))) = maxSize qc - 1)"
proof -
  let ?key = "getCacheKey E query params"
  let ?new = "\<lparr>result = res, timestamp = now, ttl = getTTL E query\<rparr>"
  let ?after = "cache (set_cached E qc now query res params)"
  from present have ne: "cache qc \<noteq> []" by auto
  from full have ge: "int (length (cache qc)) \<ge> maxSize qc" by simp
  from set_cached_full [OF ge ne keys, of E now query res params] obtain ko eo where
    o: "findOldestEntry (cache qc) = Some ko" "(ko, eo) \<in> set (cache qc)"
       "\<forall>e'\<in>snd ` set (cache qc). timestamp eo \<le> timestamp e'"
       "?after = AList.update ?key ?new (AList.delete ko (cache qc))"
    by blast
  have stored: "map_of ?after ?key = Some ?new"
    by (simp add: o(4) AList.update_conv')
  have lost: "map_of ?after ko = None \<and> int (length ?after) = maxSize qc - 1"
    if d: "ko \<noteq> ?key"
  proof -
    have m: "map_of ?after ko = None"
      using d by (simp add: o(4) AList.update_conv' AList.delete_conv')
    from present d have "?key \<in> fst ` set (AList.delete ko (cache qc))"
      by (metis AList.delete_conv' domI dom_map_of_conv_image_fst fun_upd_other)
    then have "length ?after = length (AList.delete ko (cache qc))"
      by (simp add: o(4) length_update_present)
    also have "\<dots> = length (cache qc) - 1"
      using o(2) dist by (intro length_delete_present) force+
    finally have "length ?after = length (cache qc) - 1" .
    moreover from ne have "0 < length (cache qc)" by simp
    ultimately have "int (length ?after) = maxSize qc - 1" using full by linarith
    with m show ?thesis by simp
  qed
  from o stored lost show ?thesis by blast
qed

text \<open>
  A full cache of capacity two: storing the second query again deletes the first.
\<close>

theorem set_cached_overwrite_at_capacity_witness:
  "int (length (cache two_entries)) = maxSize two_entries \<and>
   distinct (map fst (cache two_entries)) \<and>
   [] \<notin> fst ` set (cache two_entries) \<and>
   map_of (cache two_entries) (getCacheKey accept_all ''select 2'' None) =
     Some \<lparr>result = sample_result, timestamp = 2, ttl = 300000\<rparr> \<and>
   findOldestEntry (cache two_entries) = Some (tag_digest ''select 1'') \<and>
   tag_digest ''select 1'' \<noteq> getCacheKey accept_all ''select 2'' None \<and>
   map_of (cache (set_cached accept_all two_entries 9 ''select 2'' sample_result None))
     (tag_digest ''select 1'') = None \<and>
   int (length (cache (set_cached accept_all two_entries 9 ''select 2'' sample_result None))) =
     maxSize two_entries - 1"
proof -
  let ?after = "cache (set_cached accept_all two_entries 9 ''select 2'' sample_result None)"
  have h1: "int (length (cache two_entries)) = maxSize two_entries"
    by (simp add: two_entries_def)
  have h2: "distinct (map fst (cache two_entries))"
    by (simp add: two_entries_def tag_digest_def accept_all_def engine_def)
  have h3: "[] \<notin> fst ` set (cache two_entries)"
    by (simp add: two_entries_def tag_digest_def accept_all_def engine_def)
  have h4: "map_of (cache two_entries) (getCacheKey accept_all ''select 2'' None) =
     Some \<lparr>result = sample_result, timestamp = 2, ttl = 300000\<rparr>"
    by (simp add: two_entries_def tag_digest_def accept_all_def engine_def getCacheKey_def)
  have f: "findOldestEntry (cache two_entries) = Some (tag_digest ''select 1'')"
    by (simp add: two_entries_def findOldestEntry_def)
  have d: "tag_digest ''select 1'' \<noteq> getCacheKey accept_all ''select 2'' None"
    by (simp add: tag_digest_def accept_all_def engine_def getCacheKey_def)
  from set_cached_overwrite_at_capacity [OF h1 h2 h3 h4, of 9 sample_result]
  obtain ko where
    "findOldestEntry (cache two_entries) = Some ko"
    "ko \<noteq> getCacheKey accept_all ''select 2'' None \<longrightarrow>
       map_of ?after ko = None \<and> int (length ?after) = maxSize two_entries - 1"
    by blast
  with f d have "map_of ?after (tag_digest ''select 1'') = None \<and>
      int (length ?after) = maxSize two_entries - 1"
    by simp
  with h1 h2 h3 h4 f d show ?thesis by blast
qed

section \<open>The engine\<close>

lemma db_execute_facts:
  "snd (db_execute E w s) = w\<lparr>db := snd (send E (db w) s), issued := issued w @ [s]\<rparr>"
  "fst (db_execute E w s) = fst (send E (db w) s)"
  by (simp_all add: db_execute_def split: prod.splits)

lemma db_run_snd:
  "snd (db_run E w s) = w\<lparr>db := snd (send E (db w) s), issued := issued w @ [s]\<rparr>"
  by (simp add: db_run_def db_execute_def split: prod.splits sum.splits)

lemma db_run_fst:
  "fst (db_run E w s) = (case fst (send E (db w) s) of Inl e \<Rightarrow> Inl e | Inr rs \<Rightarrow> Inr ())"
  by (simp add: db_run_def db_execute_def split: prod.splits sum.splits)

lemma db_run_catalog: "catalog (snd (db_run E w s)) = catalog w"
  by (simp add: db_run_snd)

lemma db_run_ok:
  "send E (db w) s = (Inr rs, d) \<Longrightarrow>
   db_run E w s = (Inr (), w\<lparr>db := d, issued := issued w @ [s]\<rparr>)"
  by (simp add: db_run_def db_execute_def)

lemma db_execute_ok:
  "send E (db w) s = (Inr rs, d) \<Longrightarrow>
   db_execute E w s = (Inr rs, w\<lparr>db := d, issued := issued w @ [s]\<rparr>)"
  by (simp add: db_execute_def)

lemma run_all_catalog: "catalog (snd (run_all E w ss)) = catalog w"
proof (induction ss arbitrary: w)
  case Nil
  then show ?case by simp
next
  case (Cons s ss)
  show ?case
  proof (cases "db_run E w s")
    case (Pair r w1)
    then have c: "catalog w1 = catalog w" using db_run_catalog [of E w s] by simp
    show ?thesis
    proof (cases r)
      case (Inl e)
      with Pair c show ?thesis by simp
    next
      case (Inr u)
      with Pair c Cons.IH [of w1] show ?thesis by simp
    qed
  qed
qed

section \<open>The table loader\<close>

lemmas loader_eval =
  ensureTableLoaded_def loadTable_def loadTable_catch_def loadTable_try_def cleanAndOptimizeTable_def
  unloadTable_def db_run_def db_execute_def getEntry_def markLoaded_def markUnloaded_def
  count_or_zero_def greater_zero_def Let_def

lemmas engine_eval =
  engine_def accept_all_def reject_drops_def reject_create_def empty_window_def
  empty_window_locked_def reject_queries_def

text \<open>A failed \<open>try\<close> block has not touched the catalog.\<close>

lemma loadTable_try_fail_catalog:
  assumes "loadTable_try E w tableName filePath tmp = (Inl err, w1)"
  shows "catalog w1 = catalog w"
proof -
  let ?s1 = "CreateStaging tmp filePath (date_now E (db w)) (rollingWindowDays E)"
  obtain r1 wa where a: "db_run E w ?s1 = (r1, wa)" by (cases "db_run E w ?s1")
  have ca: "catalog wa = catalog w" using db_run_catalog [of E w ?s1] a by simp
  show ?thesis
  proof (cases r1)
    case (Inl e)
    with assms a ca show ?thesis by (simp add: loadTable_try_def)
  next
    case (Inr u)
    obtain r2 wb where b: "db_execute E wa (CountRows tmp) = (r2, wb)"
      by (cases "db_execute E wa (CountRows tmp)")
    have cb: "catalog wb = catalog w"
      using db_execute_facts(1) [of E wa "CountRows tmp"] b ca by simp
    show ?thesis
    proof (cases r2)
      case (Inl e)
      with assms a b Inr cb show ?thesis by (simp add: loadTable_try_def)
    next
      case rows: (Inr countResult)
      show ?thesis
      proof (cases "greater_zero E (count_or_zero countResult)")
        case True
        obtain r3 wc where c: "cleanAndOptimizeTable E wb tmp tableName = (r3, wc)"
          by (cases "cleanAndOptimizeTable E wb tmp tableName")
        have "catalog (snd (cleanAndOptimizeTable E wb tmp tableName)) = catalog wb"
          unfolding cleanAndOptimizeTable_def by (rule run_all_catalog)
        then have cc: "catalog wc = catalog w" using c cb by simp
        show ?thesis
        proof (cases r3)
          case (Inl e)
          with assms a b c Inr rows True cc show ?thesis by (simp add: loadTable_try_def)
        next
          case ok: (Inr u3)
          with assms a b c Inr rows True show ?thesis by (simp add: loadTable_try_def)
        qed
      next
        case False
        have "catalog (snd (db_run E wb (DropTableIfExists tmp))) = catalog wb"
          by (rule db_run_catalog)
        moreover have "db_run E wb (DropTableIfExists tmp) = (Inl err, w1)"
          using assms a b Inr rows False by (simp add: loadTable_try_def)
        ultimately show ?thesis using cb by simp
      qed
    qed
  qed
qed

lemma str_includes_middle: "str_includes (a @ t @ b) t"
  by (simp add: str_includes_def)

text \<open>
  A load whose \<open>try\<close> block has failed: what \<open>loadTable\<close> returns, and the state it
  leaves.
\<close>

lemma loadTable_caught:
  assumes fail: "loadTable_try E w tableName filePath (tableName @ ''_staging'') = (Inl err, w1)"
  shows "loadTable E w tableName filePath =
           (Inl (case fst (send E (db w1) (DropTableIfExists (tableName @ ''_staging''))) of
                   Inl e2 \<Rightarrow> e2
                 | Inr rs \<Rightarrow>
                     Error (''Failed to load table '' @ tableName @ '': '' @ error_text err)),
            w1\<lparr>db := snd (send E (db w1) (DropTableIfExists (tableName @ ''_staging''))),
               issued := issued w1 @ [DropTableIfExists (tableName @ ''_staging'')]\<rparr>)"
    and "catalog w1 = catalog w"
proof -
  let ?tmp = "tableName @ ''_staging''"
  let ?d = "DropTableIfExists ?tmp"
  let ?w2 = "w1\<lparr>db := snd (send E (db w1) ?d), issued := issued w1 @ [?d]\<rparr>"
  show "catalog w1 = catalog w" using fail by (rule loadTable_try_fail_catalog)
  have s: "snd (db_run E w1 ?d) = ?w2" by (rule db_run_snd)
  have r: "fst (db_run E w1 ?d) =
             (case fst (send E (db w1) ?d) of Inl e \<Rightarrow> Inl e | Inr rs \<Rightarrow> Inr ())"
    by (rule db_run_fst)
  show "loadTable E w tableName filePath =
      (Inl (case fst (send E (db w1) ?d) of
              Inl e2 \<Rightarrow> e2
            | Inr rs \<Rightarrow> Error (''Failed to load table '' @ tableName @ '': '' @ error_text err)),
       ?w2)"
  proof (cases "fst (send E (db w1) ?d)")
    case (Inl e2)
    with r s have "db_run E w1 ?d = (Inl e2, ?w2)" by (metis prod.collapse sum.case(1))
    with fail Inl show ?thesis by (simp add: loadTable_def loadTable_catch_def Let_def)
  next
    case (Inr rs)
    with r s have "db_run E w1 ?d = (Inr (), ?w2)" by (metis prod.collapse sum.case(2))
    with fail Inr show ?thesis by (simp add: loadTable_def loadTable_catch_def Let_def)
  qed
qed

text \<open>
  Claim C4, as amended. When the \<open>try\<close> block of a load fails, the conditional drop of
  the staging table is the last statement issued, the catalog is as before the load,
  and an error reaches the caller. When the engine accepts that drop the error is
  \<open>Failed to load table\<close>, the table name, a colon and the text of the cause, and
  nothing else: the message names the table, and the loader puts no file path into
  it. When the engine rejects that drop, the rejection itself reaches the caller.
\<close>

theorem loadTable_failure:
  assumes fail: "loadTable_try E w tableName filePath (tableName @ ''_staging'') = (Inl err, w1)"
  shows "issued (snd (loadTable E w tableName filePath)) =
           issued w1 @ [DropTableIfExists (tableName @ ''_staging'')] \<and>
         catalog (snd (loadTable E w tableName filePath)) = catalog w \<and>
         fst (loadTable E w tableName filePath) =
           Inl (case fst (send E (db w1) (DropTableIfExists (tableName @ ''_staging''))) of
                  Inl e2 \<Rightarrow> e2
                | Inr rs \<Rightarrow>
                    Error (''Failed to load table '' @ tableName @ '': '' @ error_text err)) \<and>
         str_includes (''Failed to load table '' @ tableName @ '': '' @ error_text err) tableName"
proof -
  note l = loadTable_caught(1) [OF fail] and c1 = loadTable_caught(2) [OF fail]
  have "str_includes (''Failed to load table '' @ tableName @ '': '' @ error_text err) tableName"
    by (rule str_includes_middle)
  with l c1 show ?thesis by simp
qed

text \<open>The engine rejects the creation of the staging table for the step counts.\<close>

theorem loadTable_failure_witness:
  "loadTable_try reject_create steps_unloaded ''hkquantitytypeidentifierstepcount''
      ''/data/HKQuantityTypeIdentifierStepCount.csv''
      (''hkquantitytypeidentifierstepcount'' @ ''_staging'') =
     (Inl (Error ''Out of Memory Error: could not allocate block''),
      steps_unloaded\<lparr>issued :=
        [CreateStaging ''hkquantitytypeidentifierstepcount_staging''
           ''/data/HKQuantityTypeIdentifierStepCount.csv'' 0 90]\<rparr>) \<and>
   fst (loadTable reject_create steps_unloaded ''hkquantitytypeidentifierstepcount''
          ''/data/HKQuantityTypeIdentifierStepCount.csv'') =
     Inl (Error (''Failed to load table hkquantitytypeidentifierstepcount: '' @
                 ''Error: Out of Memory Error: could not allocate block'')) \<and>
   issued (snd (loadTable reject_create steps_unloaded ''hkquantitytypeidentifierstepcount''
          ''/data/HKQuantityTypeIdentifierStepCount.csv'')) =
     [CreateStaging ''hkquantitytypeidentifierstepcount_staging''
        ''/data/HKQuantityTypeIdentifierStepCount.csv'' 0 90,
      DropTableIfExists ''hkquantitytypeidentifierstepcount_staging''] \<and>
   catalog (snd (loadTable reject_create steps_unloaded ''hkquantitytypeidentifierstepcount''
          ''/data/HKQuantityTypeIdentifierStepCount.csv'')) = catalog steps_unloaded"
proof -
  let ?t = "''hkquantitytypeidentifierstepcount''"
  let ?p = "''/data/HKQuantityTypeIdentifierStepCount.csv''"
  let ?w1 = "steps_unloaded\<lparr>issued :=
        [CreateStaging ''hkquantitytypeidentifierstepcount_staging'' ?p 0 90]\<rparr>"
  have h1: "loadTable_try reject_create steps_unloaded ?t ?p (?t @ ''_staging'') =
     (Inl (Error ''Out of Memory Error: could not allocate block''), ?w1)"
    by (simp add: loader_eval engine_eval steps_unloaded_def)
  have h2: "fst (send reject_create (db ?w1) (DropTableIfExists (?t @ ''_staging''))) = Inr []"
    by (simp add: engine_eval)
  from loadTable_failure [OF h1] h2
  have c: "fst (loadTable reject_create steps_unloaded ?t ?p) =
      Inl (Error (''Failed to load table hkquantitytypeidentifierstepcount: '' @
                 ''Error: Out of Memory Error: could not allocate block'')) \<and>
    issued (snd (loadTable reject_create steps_unloaded ?t ?p)) =
     [CreateStaging ''hkquantitytypeidentifierstepcount_staging'' ?p 0 90,
      DropTableIfExists ''hkquantitytypeidentifierstepcount_staging''] \<and>
    catalog (snd (loadTable reject_create steps_unloaded ?t ?p)) = catalog steps_unloaded"
    by simp
  from h1 c show ?thesis by blast
qed

text \<open>
  Claim C4 as stated fails: in that run the error that reaches the caller does not
  contain the path of the source file.
\<close>

theorem loadTable_failure_counterexample:
  "fst (loadTable reject_create steps_unloaded ''hkquantitytypeidentifierstepcount''
          ''/data/HKQuantityTypeIdentifierStepCount.csv'') =
     Inl (Error (''Failed to load table hkquantitytypeidentifierstepcount: '' @
                 ''Error: Out of Memory Error: could not allocate block'')) \<and>
   \<not> str_includes
        (''Failed to load table hkquantitytypeidentifierstepcount: '' @
         ''Error: Out of Memory Error: could not allocate block'')
        ''/data/HKQuantityTypeIdentifierStepCount.csv''"
  by (simp add: loader_eval engine_eval steps_unloaded_def str_includes_def sublist_code)

text \<open>
  Claim C5, as amended. For a catalog table that is not loaded, when the engine creates
  the staging table and the count of its rows is not greater than zero, the catalog
  is untouched whatever the engine answers next: no \<open>markLoaded\<close> happens and the entry
  is still not loaded. The conditional drop of the staging table is issued third.
  When the engine accepts that drop, \<open>ensureTableLoaded\<close> ends without an error and these
  three statements are all that it issues; when the engine rejects it, the \<open>catch\<close>
  block issues the drop once more and an error reaches the caller.
\<close>

theorem ensureTableLoaded_zero_rows:
  assumes entry: "getEntry E (catalog w) tableName = Some entry"
    and unloaded: "\<not> loaded entry"
    and create: "send E (db w)
                   (CreateStaging (tableName @ ''_staging'') (path entry)
                      (date_now E (db w)) (rollingWindowDays E)) = (Inr rs0, d1)"
    and count: "send E d1 (CountRows (tableName @ ''_staging'')) = (Inr countResult, d2)"
    and zero: "\<not> greater_zero E (count_or_zero countResult)"
  shows "catalog (snd (ensureTableLoaded E w tableName)) = catalog w \<and>
         map_option loaded (getEntry E (catalog (snd (ensureTableLoaded E w tableName))) tableName) =
           Some False \<and>
         (case send E d2 (DropTableIfExists (tableName @ ''_staging'')) of
            (Inr rs2, d3) \<Rightarrow>
              ensureTableLoaded E w tableName =
                (Inr (),
                 w\<lparr>db := d3,
                   issued := issued w @
                     [CreateStaging (tableName @ ''_staging'') (path entry)
                        (date_now E (db w)) (rollingWindowDays E),
                      CountRows (tableName @ ''_staging''),
                      DropTableIfExists (tableName @ ''_staging'')]\<rparr>)
          | (Inl e, d3) \<Rightarrow>
              fst (ensureTableLoaded E w tableName) =
                Inl (case fst (send E d3 (DropTableIfExists (tableName @ ''_staging''))) of
                       Inl e2 \<Rightarrow> e2
                     | Inr rs \<Rightarrow>
                         Error (''Failed to load table '' @ tableName @ '': '' @ error_text e)) \<and>
              issued (snd (ensureTableLoaded E w tableName)) =
                issued w @
                  [CreateStaging (tableName @ ''_staging'') (path entry)
                     (date_now E (db w)) (rollingWindowDays E),
                   CountRows (tableName @ ''_staging''),
                   DropTableIfExists (tableName @ ''_staging''),
                   DropTableIfExists (tableName @ ''_staging'')])"
proof -
  let ?tmp = "tableName @ ''_staging''"
  let ?s1 = "CreateStaging ?tmp (path entry) (date_now E (db w)) (rollingWindowDays E)"
  let ?d = "DropTableIfExists ?tmp"
  let ?w1 = "w\<lparr>db := d1, issued := issued w @ [?s1]\<rparr>"
  let ?w2 = "?w1\<lparr>db := d2, issued := issued ?w1 @ [CountRows ?tmp]\<rparr>"
  have a: "db_run E w ?s1 = (Inr (), ?w1)" using create by (rule db_run_ok)
  have b: "db_execute E ?w1 (CountRows ?tmp) = (Inr countResult, ?w2)"
    using count by (intro db_execute_ok) simp
  have t: "loadTable_try E w tableName (path entry) ?tmp = db_run E ?w2 ?d"
    using a b zero by (simp add: loadTable_try_def)
  have e: "ensureTableLoaded E w tableName = loadTable E w tableName (path entry)"
    using entry unloaded by (simp add: ensureTableLoaded_def)
  obtain r d3 where sd: "send E d2 ?d = (r, d3)" by (cases "send E d2 ?d")
  let ?w3 = "?w2\<lparr>db := d3, issued := issued ?w2 @ [?d]\<rparr>"
  show ?thesis
  proof (cases r)
    case (Inr rs2)
    have "db_run E ?w2 ?d = (Inr (), ?w3)"
      using sd Inr by (intro db_run_ok) simp
    with t have "loadTable E w tableName (path entry) = (Inr (), ?w3)"
      by (simp add: loadTable_def loadTable_catch_def Let_def)
    with e have r3: "ensureTableLoaded E w tableName = (Inr (), ?w3)" by simp
    have w3: "?w3 = w\<lparr>db := d3, issued := issued w @ [?s1, CountRows ?tmp, ?d]\<rparr>"
      by simp
    from r3 w3 sd Inr entry unloaded show ?thesis by simp
  next
    case (Inl err)
    have tr: "db_run E ?w2 ?d = (Inl err, ?w3)"
      using sd Inl by (simp add: db_run_def db_execute_def)
    with t have fail: "loadTable_try E w tableName (path entry) ?tmp = (Inl err, ?w3)"
      by simp
    note f = loadTable_caught(1) [OF fail] and f2 = loadTable_caught(2) [OF fail]
    have i: "issued (snd (ensureTableLoaded E w tableName)) =
        issued w @ [?s1, CountRows ?tmp, ?d, ?d]"
      using f e by simp
    have c: "catalog (snd (ensureTableLoaded E w tableName)) = catalog w"
      using f f2 e by simp
    have r4: "fst (ensureTableLoaded E w tableName) =
        Inl (case fst (send E d3 ?d) of
               Inl e2 \<Rightarrow> e2
             | Inr rs \<Rightarrow> Error (''Failed to load table '' @ tableName @ '': '' @ error_text err))"
      using f e by simp
    from i c r4 sd Inl entry unloaded show ?thesis by simp
  qed
qed

text \<open>The staging table of the step counts has no row and the engine accepts the drop.\<close>

theorem ensureTableLoaded_zero_rows_witness:
  "getEntry empty_window (catalog steps_unloaded) ''hkquantitytypeidentifierstepcount'' =
     Some \<lparr>path = ''/data/HKQuantityTypeIdentifierStepCount.csv'', loaded = False,
           rowCount = Null, lastAccessed = None\<rparr> \<and>
   send empty_window (db steps_unloaded)
     (CreateStaging (''hkquantitytypeidentifierstepcount'' @ ''_staging'')
        ''/data/HKQuantityTypeIdentifierStepCount.csv''
        (date_now empty_window (db steps_unloaded)) (rollingWindowDays empty_window)) =
     (Inr [], ()) \<and>
   send empty_window () (CountRows (''hkquantitytypeidentifierstepcount'' @ ''_staging'')) =
     (Inr [[(''count'', Num 0)]], ()) \<and>
   count_or_zero [[(''count'', Num 0)]] = Num 0 \<and>
   send empty_window () (DropTableIfExists (''hkquantitytypeidentifierstepcount'' @ ''_staging'')) =
     (Inr [], ()) \<and>
   fst (ensureTableLoaded empty_window steps_unloaded ''hkquantitytypeidentifierstepcount'') = Inr () \<and>
   issued (snd (ensureTableLoaded empty_window steps_unloaded ''hkquantitytypeidentifierstepcount'')) =
     [CreateStaging ''hkquantitytypeidentifierstepcount_staging''
        ''/data/HKQuantityTypeIdentifierStepCount.csv'' 0 90,
      CountRows ''hkquantitytypeidentifierstepcount_staging'',
      DropTableIfExists ''hkquantitytypeidentifierstepcount_staging''] \<and>
   map_option loaded
     (getEntry empty_window
        (catalog (snd (ensureTableLoaded empty_window steps_unloaded
                         ''hkquantitytypeidentifierstepcount'')))
        ''hkquantitytypeidentifierstepcount'') = Some False"
proof -
  let ?t = "''hkquantitytypeidentifierstepcount''"
  let ?p = "''/data/HKQuantityTypeIdentifierStepCount.csv''"
  let ?e = "\<lparr>path = ?p, loaded = False, rowCount = Null, lastAccessed = None\<rparr>"
  have h1: "getEntry empty_window (catalog steps_unloaded) ?t = Some ?e"
    by (simp add: steps_unloaded_def getEntry_def engine_eval ascii_lower_def lower_char_def)
  have h2: "\<not> loaded ?e" by simp
  have h3: "send empty_window (db steps_unloaded)
     (CreateStaging (?t @ ''_staging'') (path ?e)
        (date_now empty_window (db steps_unloaded)) (rollingWindowDays empty_window)) =
     (Inr [], ())"
    by (simp add: engine_eval)
  have h4: "send empty_window () (CountRows (?t @ ''_staging'')) = (Inr [[(''count'', Num 0)]], ())"
    by (simp add: engine_eval)
  have z: "count_or_zero [[(''count'', Num 0)]] = Num 0" by (simp add: count_or_zero_def)
  have h5: "\<not> greater_zero empty_window (count_or_zero [[(''count'', Num 0)]])"
    by (simp add: z greater_zero_def)
  have h6: "send empty_window () (DropTableIfExists (?t @ ''_staging'')) = (Inr [], ())"
    by (simp add: engine_eval)
  note c = ensureTableLoaded_zero_rows [OF h1 h2 h3 h4 h5]
  have c0: "ensureTableLoaded empty_window steps_unloaded ?t =
      (Inr (),
       steps_unloaded\<lparr>db := (),
         issued := issued steps_unloaded @
           [CreateStaging (?t @ ''_staging'') (path ?e)
              (date_now empty_window (db steps_unloaded)) (rollingWindowDays empty_window),
            CountRows (?t @ ''_staging''),
            DropTableIfExists (?t @ ''_staging'')]\<rparr>)"
    using c h6 by simp
  have c1: "fst (ensureTableLoaded empty_window steps_unloaded ?t) = Inr ()"
    using c0 by simp
  have c2: "issued (snd (ensureTableLoaded empty_window steps_unloaded ?t)) =
     [CreateStaging ''hkquantitytypeidentifierstepcount_staging'' ?p 0 90,
      CountRows ''hkquantitytypeidentifierstepcount_staging'',
      DropTableIfExists ''hkquantitytypeidentifierstepcount_staging'']"
    using c0 by (simp add: engine_eval steps_unloaded_def)
  have c3: "map_option loaded
     (getEntry empty_window
        (catalog (snd (ensureTableLoaded empty_window steps_unloaded ?t))) ?t) = Some False"
    using c by blast
  have h3': "send empty_window (db steps_unloaded)
     (CreateStaging (?t @ ''_staging'') ?p
        (date_now empty_window (db steps_unloaded)) (rollingWindowDays empty_window)) =
     (Inr [], ())"
    using h3 by simp
  from h1 h3' h4 z h6 c1 c2 c3 show ?thesis by blast
qed

text \<open>
  Claim C5 as stated fails: the staging table of the step counts has no row and the
  engine rejects its drop; \<open>ensureTableLoaded\<close> ends with that rejection.
\<close>

theorem ensureTableLoaded_zero_rows_counterexample:
  "map_option loaded
     (getEntry empty_window_locked (catalog steps_unloaded) ''hkquantitytypeidentifierstepcount'') =
     Some False \<and>
   send empty_window_locked () (CountRows ''hkquantitytypeidentifierstepcount_staging'') =
     (Inr [[(''count'', Num 0)]], ()) \<and>
   ensureTableLoaded empty_window_locked steps_unloaded ''hkquantitytypeidentifierstepcount'' =
     (Inl (Error ''IO Error: database is locked''),
      steps_unloaded\<lparr>issued :=
        [CreateStaging ''hkquantitytypeidentifierstepcount_staging''
           ''/data/HKQuantityTypeIdentifierStepCount.csv'' 0 90,
         CountRows ''hkquantitytypeidentifierstepcount_staging'',
         DropTableIfExists ''hkquantitytypeidentifierstepcount_staging'',
         DropTableIfExists ''hkquantitytypeidentifierstepcount_staging'']\<rparr>)"
  by (simp add: loader_eval engine_eval steps_unloaded_def ascii_lower_def lower_char_def)

text \<open>
  Claim C10. \<open>unloadTable\<close> always returns normally, for every table name and whatever
  the engine answers. It issues the conditional drop of the table; when the engine
  rejects that drop the catalog is left as it was, so the entry keeps its \<open>loaded\<close> flag
  and its row count, and when the engine accepts it the table is marked unloaded.
\<close>

theorem unloadTable_never_throws:
  "fst (unloadTable E w tableName) = Inr () \<and>
   issued (snd (unloadTable E w tableName)) = issued w @ [DropTableIfExists tableName] \<and>
   (case fst (send E (db w) (DropTableIfExists tableName)) of
      Inl err \<Rightarrow>
        catalog (snd (unloadTable E w tableName)) = catalog w \<and>
        getEntry E (catalog (snd (unloadTable E w tableName))) tableName =
          getEntry E (catalog w) tableName
    | Inr rs \<Rightarrow>
        catalog (snd (unloadTable E w tableName)) = markUnloaded E (catalog w) tableName)"
  by (simp add: unloadTable_def db_run_def db_execute_def split: prod.splits sum.splits)

text \<open>A loaded table with five rows and an engine that rejects the drop.\<close>

theorem unloadTable_never_throws_witness:
  "fst (send reject_drops (db steps_loaded) (DropTableIfExists ''hkquantitytypeidentifierstepcount'')) =
     Inl (Error ''IO Error: database is locked'') \<and>
   fst (unloadTable reject_drops steps_loaded ''hkquantitytypeidentifierstepcount'') = Inr () \<and>
   getEntry reject_drops
       (catalog (snd (unloadTable reject_drops steps_loaded ''hkquantitytypeidentifierstepcount'')))
       ''hkquantitytypeidentifierstepcount'' =
     Some \<lparr>path = ''/data/HKQuantityTypeIdentifierStepCount.csv'', loaded = True,
           rowCount = Num 5, lastAccessed = Some 0\<rparr>"
proof -
  let ?t = "''hkquantitytypeidentifierstepcount''"
  have h: "fst (send reject_drops (db steps_loaded) (DropTableIfExists ?t)) =
     Inl (Error ''IO Error: database is locked'')"
    by (simp add: engine_eval)
  have g: "getEntry reject_drops (catalog steps_loaded) ?t =
     Some \<lparr>path = ''/data/HKQuantityTypeIdentifierStepCount.csv'', loaded = True,
           rowCount = Num 5, lastAccessed = Some 0\<rparr>"
    by (simp add: steps_loaded_def getEntry_def engine_eval ascii_lower_def lower_char_def)
  from unloadTable_never_throws [of reject_drops steps_loaded ?t] h
  have "fst (unloadTable reject_drops steps_loaded ?t) = Inr () \<and>
        getEntry reject_drops (catalog (snd (unloadTable reject_drops steps_loaded ?t))) ?t =
          getEntry reject_drops (catalog steps_loaded) ?t"
    by simp
  with h g show ?thesis by simp
qed

section \<open>Eviction order\<close>





section \<open>Loads under \<open>Promise.all\<close>\<close>

declare promise_all.simps [simp del]

text \<open>With nothing to load, \<open>Promise.all\<close> resolves at once.\<close>

lemma promise_all_Nil: "promise_all E sched w [] = (Inr (), w)"
  by (subst promise_all.simps) (simp add: rejections_def waiting_ids_def)

subsection \<open>A single load\<close>

lemma next_id_single: "next_id sched [0] = 0"
  by (simp add: next_id_def split: list.splits)

lemma promise_all_settled: "promise_all E sched w [Settled r] = (r, w)"
  by (subst promise_all.simps) (cases r; simp add: rejections_def waiting_ids_def)

lemma promise_all_waiting:
  "promise_all E sched w [Waiting t tmp s ph] =
     (case task_step E w (Waiting t tmp s ph) of
        (t', w1) \<Rightarrow> promise_all E (tl sched) w1 [t'])"
  by (subst promise_all.simps) (simp add: rejections_def waiting_ids_def next_id_single)

lemma promise_all_caught:
  "promise_all E sched w [catch_block t tmp err] = loadTable_catch E w t tmp err"
  by (simp add: catch_block_def loadTable_catch_def promise_all_waiting task_step_def db_run_def
      promise_all_settled split: prod.splits sum.splits)

lemma promise_all_cleaning:
  "promise_all E sched w [Waiting t tmp s (Cleaning rest n)] =
     (case run_all E w (s # rest) of
        (Inl e, w1) \<Rightarrow> loadTable_catch E w1 t tmp e
      | (Inr u, w3) \<Rightarrow>
          (Inr (), w3\<lparr>catalog := markLoaded E (catalog w3) (date_now E (db w3)) t n\<rparr>))"
proof (induction rest arbitrary: s w sched)
  case Nil
  show ?case
    by (simp add: promise_all_waiting task_step_def db_run_def promise_all_settled
        promise_all_caught split: prod.splits sum.splits)
next
  case (Cons s' rest)
  show ?case
    by (simp add: promise_all_waiting [of E sched w t tmp s] task_step_def db_run_def Cons.IH
        promise_all_caught split: prod.splits sum.splits)
qed

lemma promise_all_dropped:
  "promise_all E sched w [Waiting t tmp s DroppedEmpty] =
     (case db_run E w s of
        (Inl e, w1) \<Rightarrow> loadTable_catch E w1 t tmp e
      | (Inr u, w1) \<Rightarrow> (Inr (), w1))"
  by (simp add: promise_all_waiting task_step_def db_run_def promise_all_settled
      promise_all_caught split: prod.splits sum.splits)

lemma promise_all_created:
  "promise_all E sched w
     [Waiting t tmp (CreateStaging tmp p (date_now E (db w)) (rollingWindowDays E)) Created] =
   (case loadTable_try E w t p tmp of
      (Inr u, w1) \<Rightarrow> (Inr (), w1)
    | (Inl err, w1) \<Rightarrow> loadTable_catch E w1 t tmp err)"
  by (simp add: promise_all_waiting [of _ _ _ _ _ _ Created]
      promise_all_waiting [of _ _ _ _ _ _ Counted] task_step_def
      loadTable_try_def db_run_def promise_all_caught promise_all_cleaning
      promise_all_dropped cleanAndOptimizeTable_def Let_def
      split: prod.splits sum.splits)

text \<open>
  A single call under \<open>Promise.all\<close> is \<open>ensureTableLoaded\<close> run from its start to its
  end, whatever the schedule: the two descriptions of the loader agree.
\<close>

lemma promise_all_single:
  "promise_all E sched (snd (ensure_start E w tableName)) [fst (ensure_start E w tableName)] =
     ensureTableLoaded E w tableName"
proof (cases "getEntry E (catalog w) tableName")
  case None
  then show ?thesis
    by (simp add: ensure_start_def ensureTableLoaded_def promise_all_settled)
next
  case (Some entry)
  show ?thesis
  proof (cases "loaded entry")
    case True
    with Some show ?thesis
      by (simp add: ensure_start_def ensureTableLoaded_def promise_all_settled)
  next
    case False
    with Some show ?thesis
      by (simp add: ensure_start_def ensureTableLoaded_def loadTable_def promise_all_created Let_def)
  qed
qed

subsection \<open>Two loads\<close>

text \<open>
  Two loads whose staging tables the engine refuses to create, the second being
  answered first: their statements interleave, and when the first load has rejected,
  \<open>Promise.all\<close> rejects with its error while the second load still waits for the drop
  of its \<open>catch\<close> block.
\<close>

lemma promise_all_two_rejected:
  "promise_all reject_create [1]
     (snd (start_all reject_create two_unloaded
             [''hkquantitytypeidentifierheartrate'', ''hkquantitytypeidentifierstepcount'']))
     (fst (start_all reject_create two_unloaded
             [''hkquantitytypeidentifierheartrate'', ''hkquantitytypeidentifierstepcount''])) =
   (Inl (Error (''Failed to load table hkquantitytypeidentifierheartrate: '' @
                ''Error: Out of Memory Error: could not allocate block'')),
    two_unloaded
      \<lparr>issued :=
         [CreateStaging ''hkquantitytypeidentifierstepcount_staging''
            ''/data/HKQuantityTypeIdentifierStepCount.csv'' 0 90,
          CreateStaging ''hkquantitytypeidentifierheartrate_staging''
            ''/data/HKQuantityTypeIdentifierHeartRate.csv'' 0 90,
          DropTableIfExists ''hkquantitytypeidentifierheartrate_staging''],
       running :=
         [Waiting ''hkquantitytypeidentifierstepcount'' ''hkquantitytypeidentifierstepcount_staging''
            (DropTableIfExists ''hkquantitytypeidentifierstepcount_staging'')
            (Caught (Error ''Out of Memory Error: could not allocate block''))]\<rparr>)"
proof -
  have low: "toLowerCase reject_create = ascii_lower" by (simp add: engine_eval)
  show ?thesis
    unfolding ensure_start_def start_all.simps getEntry_def low
    by (simp add: promise_all.simps two_unloaded_def rejections_def waiting_ids_def
        next_id_def task_step_def db_execute_def catch_block_def engine_eval
        ascii_lower_def lower_char_def upt_rec)
qed

section \<open>The optimizer\<close>

subsection \<open>Replacement\<close>

lemma prefix_imp_includes: "prefix p s \<Longrightarrow> str_includes s p"
  by (simp add: str_includes_def)

lemma includes_tail: "str_includes s p \<Longrightarrow> str_includes (c # s) p"
  by (simp add: str_includes_def sublist_Cons_right)

text \<open>A text without a match is not changed.\<close>

lemma replace_gi_no_match:
  "pat \<noteq> [] \<Longrightarrow> \<not> str_includes (ascii_lower s) (ascii_lower pat) \<Longrightarrow>
   replace_gi pat rep s = s"
proof (induction s)
  case Nil
  then show ?case by simp
next
  case (Cons c s)
  have low: "ascii_lower (c # s) = lower_char c # ascii_lower s"
    by (simp add: ascii_lower_def)
  have np: "\<not> prefix (ascii_lower pat) (ascii_lower (c # s))"
    using Cons.prems(2) prefix_imp_includes by blast
  have nt: "\<not> str_includes (ascii_lower s) (ascii_lower pat)"
    using Cons.prems(2) includes_tail low by metis
  from Cons.IH [OF Cons.prems(1) nt] np Cons.prems(1) show ?case by simp
qed

text \<open>
  The leftmost match is replaced by the replacement text, whatever stands before and
  behind it, and the scan goes on with the rest.
\<close>

lemma replace_gi_at:
  assumes pat: "pat \<noteq> []"
    and x: "ascii_lower x = ascii_lower pat"
  shows "\<not> str_includes (ascii_lower (a @ butlast x)) (ascii_lower pat) \<Longrightarrow>
         replace_gi pat rep (a @ x @ b) = a @ rep @ replace_gi pat rep b"
proof (induction a)
  case Nil
  have lx: "length x = length pat" using x by (metis length_ascii_lower)
  with pat obtain c x' where cx: "x = c # x'" by (cases x) auto
  have "prefix (ascii_lower pat) (ascii_lower (x @ b))"
    by (simp add: ascii_lower_append x)
  moreover have "drop (length pat) (x @ b) = b" using lx by simp
  ultimately show ?case using pat cx by (metis append_Cons append_Nil replace_gi.simps(2))
next
  case (Cons c a)
  let ?p = "ascii_lower pat"
  have lx: "length x = length pat" using x by (metis length_ascii_lower)
  have low: "ascii_lower ((c # a) @ butlast x) = lower_char c # ascii_lower (a @ butlast x)"
    by (simp add: ascii_lower_def)
  have nt: "\<not> str_includes (ascii_lower (a @ butlast x)) ?p"
    using Cons.prems includes_tail low by metis
  have np: "\<not> prefix ?p (ascii_lower (c # a @ x @ b))"
  proof
    assume pre: "prefix ?p (ascii_lower (c # a @ x @ b))"
    have len: "length ?p \<le> length (ascii_lower ((c # a) @ butlast x))"
      using lx pat by (simp add: length_ascii_lower)
    have split: "ascii_lower (c # a @ x @ b) =
        ascii_lower ((c # a) @ butlast x) @ ascii_lower (last x # b)"
    proof -
      have "x \<noteq> []" using lx pat by auto
      then have "c # a @ x @ b = ((c # a) @ butlast x) @ (last x # b)" by simp
      then show ?thesis by (metis ascii_lower_append)
    qed
    from pre len have "prefix ?p (ascii_lower ((c # a) @ butlast x))"
      unfolding split by (metis prefix_length_prefix prefixI prefix_order.order_refl)
    then show False using Cons.prems prefix_imp_includes by blast
  qed
  from Cons.IH [OF nt] np pat show ?case by simp
qed

subsection \<open>The loop over the views\<close>

lemmas optimizer_eval =
  optimizeQuery_def extractTableNames_def getAllTables_def viewDefinitions_def Let_def
  promise_all_Nil

text \<open>
  Claim C7, as amended. For every query, \<open>optimizeQuery\<close> awaits the loads and, when
  they resolve, returns the query with the views substituted; a rejection of the loads
  is passed on. The substitution goes through the three views in their order: a view
  whose name occurs in the lower-cased query as it came in is replaced in the text
  rewritten so far. The replacement looks for the bare view name with the case of ASCII
  letters ignored, so the leftmost occurrence \<open>x\<close> in a text \<open>a @ x @ b\<close> is replaced by
  the parenthesised text of the view whatever the characters before and after it are,
  letters, digits and underscores included, and the replacement goes on in \<open>b\<close>; a text
  without an occurrence is not changed.
\<close>

theorem optimizeQuery_substitution:
  "fst (optimizeQuery E sched w query) =
     (case fst (promise_all E sched
                  (snd (start_all E w (extractTableNames E (catalog w) query)))
                  (fst (start_all E w (extractTableNames E (catalog w) query)))) of
        Inl e \<Rightarrow> Inl e
      | Inr u \<Rightarrow> Inr (substituteViews E viewDefinitions query query)) \<and>
   substituteViews E viewDefinitions query query =
     (let q1 = if str_includes (toLowerCase E query) ''daily_heart_rate''
               then replace_gi ''daily_heart_rate'' (''('' @ daily_heart_rate_sql @ '')'') query
               else query;
          q2 = if str_includes (toLowerCase E query) ''weekly_activity''
               then replace_gi ''weekly_activity'' (''('' @ weekly_activity_sql @ '')'') q1
               else q1
      in if str_includes (toLowerCase E query) ''sleep_summary''
         then replace_gi ''sleep_summary'' (''('' @ sleep_summary_sql @ '')'') q2
         else q2) \<and>
   (pat \<noteq> [] \<and> ascii_lower x = ascii_lower pat \<and>
    \<not> str_includes (ascii_lower (a @ butlast x)) (ascii_lower pat) \<longrightarrow>
      replace_gi pat rep (a @ x @ b) = a @ rep @ replace_gi pat rep b) \<and>
   (pat \<noteq> [] \<and> \<not> str_includes (ascii_lower s) (ascii_lower pat) \<longrightarrow>
      replace_gi pat rep s = s)"
proof (intro conjI impI)
  show "fst (optimizeQuery E sched w query) =
     (case fst (promise_all E sched
                  (snd (start_all E w (extractTableNames E (catalog w) query)))
                  (fst (start_all E w (extractTableNames E (catalog w) query)))) of
        Inl e \<Rightarrow> Inl e
      | Inr u \<Rightarrow> Inr (substituteViews E viewDefinitions query query))"
    by (simp add: optimizeQuery_def Let_def split: prod.splits sum.splits)
  show "substituteViews E viewDefinitions query query =
     (let q1 = if str_includes (toLowerCase E query) ''daily_heart_rate''
               then replace_gi ''daily_heart_rate'' (''('' @ daily_heart_rate_sql @ '')'') query
               else query;
          q2 = if str_includes (toLowerCase E query) ''weekly_activity''
               then replace_gi ''weekly_activity'' (''('' @ weekly_activity_sql @ '')'') q1
               else q1
      in if str_includes (toLowerCase E query) ''sleep_summary''
         then replace_gi ''sleep_summary'' (''('' @ sleep_summary_sql @ '')'') q2
         else q2)"
    by (simp add: viewDefinitions_def Let_def)
next
  assume h: "pat \<noteq> [] \<and> ascii_lower x = ascii_lower pat \<and>
    \<not> str_includes (ascii_lower (a @ butlast x)) (ascii_lower pat)"
  then have 1: "pat \<noteq> []" and 2: "ascii_lower x = ascii_lower pat"
    and 3: "\<not> str_includes (ascii_lower (a @ butlast x)) (ascii_lower pat)"
    by simp_all
  from 1 2 3 show "replace_gi pat rep (a @ x @ b) = a @ rep @ replace_gi pat rep b"
    by (rule replace_gi_at)
next
  assume "pat \<noteq> [] \<and> \<not> str_includes (ascii_lower s) (ascii_lower pat)"
  then show "replace_gi pat rep s = s" using replace_gi_no_match by blast
qed

text \<open>
  The view name \<open>Sleep_Summary\<close> inside the identifier \<open>my_Sleep_Summary_v2\<close>, in a query
  that names no table of the catalog.
\<close>

theorem optimizeQuery_substitution_witness:
  "ascii_lower ''Sleep_Summary'' = ascii_lower ''sleep_summary'' \<and>
   \<not> str_includes (ascii_lower (''SELECT * FROM my_'' @ butlast ''Sleep_Summary''))
       (ascii_lower ''sleep_summary'') \<and>
   \<not> str_includes (ascii_lower ''_v2'') (ascii_lower ''sleep_summary'') \<and>
   fst (promise_all accept_all []
          (snd (start_all accept_all steps_unloaded
                  (extractTableNames accept_all (catalog steps_unloaded)
                     (''SELECT * FROM my_'' @ ''Sleep_Summary'' @ ''_v2''))))
          (fst (start_all accept_all steps_unloaded
                  (extractTableNames accept_all (catalog steps_unloaded)
                     (''SELECT * FROM my_'' @ ''Sleep_Summary'' @ ''_v2''))))) = Inr () \<and>
   fst (optimizeQuery accept_all [] steps_unloaded
          (''SELECT * FROM my_'' @ ''Sleep_Summary'' @ ''_v2'')) =
     Inr (''SELECT * FROM my_'' @ ''('' @ sleep_summary_sql @ '')'' @ ''_v2'')"
proof -
  let ?a = "''SELECT * FROM my_''"
  let ?x = "''Sleep_Summary''"
  let ?b = "''_v2''"
  let ?q = "?a @ ?x @ ?b"
  let ?rep = "''('' @ sleep_summary_sql @ '')''"
  note c = optimizeQuery_substitution
    [where E = accept_all and sched = "[]" and w = steps_unloaded and query = ?q and
       pat = "''sleep_summary''" and x = ?x and a = ?a and b = ?b and rep = ?rep and s = ?b]
  have h1: "''sleep_summary'' \<noteq> []" by simp
  have h2: "ascii_lower ?x = ascii_lower ''sleep_summary''" by (simp add: str_eval)
  have h3: "\<not> str_includes (ascii_lower (?a @ butlast ?x)) (ascii_lower ''sleep_summary'')"
    by (simp add: str_eval)
  have h4: "\<not> str_includes (ascii_lower ?b) (ascii_lower ''sleep_summary'')"
    by (simp add: str_eval)
  have low: "toLowerCase accept_all = ascii_lower" by (simp add: engine_eval)
  have g1: "\<not> str_includes (toLowerCase accept_all ?q) ''daily_heart_rate''"
    unfolding low by (simp add: str_eval)
  have g2: "\<not> str_includes (toLowerCase accept_all ?q) ''weekly_activity''"
    unfolding low by (simp add: str_eval)
  have g3: "str_includes (toLowerCase accept_all ?q) ''sleep_summary''"
    unfolding low by (simp add: str_eval)
  have x: "extractTableNames accept_all (catalog steps_unloaded) ?q = []"
    unfolding extractTableNames_def low
    by (simp add: getAllTables_def steps_unloaded_def str_eval)
  have h5: "fst (promise_all accept_all []
          (snd (start_all accept_all steps_unloaded
                  (extractTableNames accept_all (catalog steps_unloaded) ?q)))
          (fst (start_all accept_all steps_unloaded
                  (extractTableNames accept_all (catalog steps_unloaded) ?q)))) = Inr ()"
    unfolding x by (simp add: promise_all_Nil)
  from c have c1: "fst (optimizeQuery accept_all [] steps_unloaded ?q) =
      (case fst (promise_all accept_all []
                  (snd (start_all accept_all steps_unloaded
                          (extractTableNames accept_all (catalog steps_unloaded) ?q)))
                  (fst (start_all accept_all steps_unloaded
                          (extractTableNames accept_all (catalog steps_unloaded) ?q)))) of
        Inl e \<Rightarrow> Inl e
      | Inr u \<Rightarrow> Inr (substituteViews accept_all viewDefinitions ?q ?q))"
    by (rule conjunct1)
  from c have c2: "substituteViews accept_all viewDefinitions ?q ?q =
     (let q1 = if str_includes (toLowerCase accept_all ?q) ''daily_heart_rate''
               then replace_gi ''daily_heart_rate'' (''('' @ daily_heart_rate_sql @ '')'') ?q
               else ?q;
          q2 = if str_includes (toLowerCase accept_all ?q) ''weekly_activity''
               then replace_gi ''weekly_activity'' (''('' @ weekly_activity_sql @ '')'') q1
               else q1
      in if str_includes (toLowerCase accept_all ?q) ''sleep_summary''
         then replace_gi ''sleep_summary'' (''('' @ sleep_summary_sql @ '')'') q2
         else q2)"
    by blast
  from c h1 h2 h3 have c3: "replace_gi ''sleep_summary'' ?rep ?q =
      ?a @ ?rep @ replace_gi ''sleep_summary'' ?rep ?b"
    by blast
  from c h1 h4 have c4: "replace_gi ''sleep_summary'' ?rep ?b = ?b" by blast
  have s: "substituteViews accept_all viewDefinitions ?q ?q = replace_gi ''sleep_summary'' ?rep ?q"
    unfolding c2 Let_def using g1 g2 g3 by (simp only: if_True if_False)
  have r: "fst (optimizeQuery accept_all [] steps_unloaded ?q) = Inr (?a @ ?rep @ ?b)"
    unfolding c1 h5 s c3 c4 by simp
  then have r': "fst (optimizeQuery accept_all [] steps_unloaded ?q) =
      Inr (?a @ ''('' @ sleep_summary_sql @ '')'' @ ?b)"
    by simp
  from h2 h3 h4 h5 r' show ?thesis by blast
qed

text \<open>
  Claim C7 as stated fails: in the identifier \<open>my_sleep_summary_v2\<close> the view name is a
  proper part of a longer identifier, and it is replaced.
\<close>

theorem optimizeQuery_substitution_counterexample:
  "fst (optimizeQuery accept_all [] steps_unloaded ''select * from my_sleep_summary_v2'') =
     Inr (''select * from my_('' @ sleep_summary_sql @ '')_v2'') \<and>
   ''select * from my_('' @ sleep_summary_sql @ '')_v2'' \<noteq> ''select * from my_sleep_summary_v2''"
  by (simp add: optimizer_eval steps_unloaded_def str_eval engine_eval)

section \<open>The pipeline\<close>

lemma extractTableNames_subset:
  "set (extractTableNames E cat query) \<subseteq> fst ` set cat"
  by (auto simp: extractTableNames_def getAllTables_def Let_def)

lemma run_query_issued:
  "issued (snd (run_query E q w)) = issued w @ [Query q]"
  by (simp add: run_query_def db_execute_def Let_def split: prod.splits sum.splits)

lemma run_query_qcache:
  "fst (run_query E q (w\<lparr>qcache := c\<rparr>)) = fst (run_query E q w)"
  by (simp add: run_query_def db_execute_def Let_def split: prod.splits sum.splits)

lemma getOrExecute_miss:
  assumes "fst (get_cached E (qcache w) (date_now E (db w)) q None) = None"
  shows "fst (getOrExecute E w q (run_query E q) None) = fst (run_query E q w) \<and>
         issued (snd (getOrExecute E w q (run_query E q) None)) = issued w @ [Query q]"
proof -
  obtain qc1 where g: "get_cached E (qcache w) (date_now E (db w)) q None = (None, qc1)"
    using assms by (metis prod.collapse)
  let ?w = "w\<lparr>qcache := qc1\<rparr>"
  obtain r w1 where x: "run_query E q ?w = (r, w1)" by (cases "run_query E q ?w")
  have i: "issued w1 = issued w @ [Query q]"
    using run_query_issued [of E q ?w] x by simp
  have f: "r = fst (run_query E q w)"
    using run_query_qcache [where E = E and q = q and w = w and c = qc1] x by simp
  have "fst (getOrExecute E w q (run_query E q) None) = r \<and>
        issued (snd (getOrExecute E w q (run_query E q) None)) = issued w1"
    using g x by (cases r) (simp_all add: getOrExecute_def)
  with i f show ?thesis by simp
qed

text \<open>
  Claim C1, as amended. \<open>extractTableNames\<close> returns catalog names only, so a table name
  that is absent from the catalog is never handed to \<open>ensureTableLoaded\<close> by the
  optimizer; called with such a name, \<open>ensureTableLoaded\<close> fails with
  \<open>Table ... not found in catalog\<close> before its first await and sends nothing to the
  engine. A query that passes validation and whose loads resolve, in a state \<open>w1\<close>,
  leaves the optimizer without a failure, and on a cache miss the rewritten query is
  sent to the engine: the caller gets what the engine answers. For a query in which no
  catalog name occurs there is nothing to load: \<open>w1\<close> is the state before the call.
\<close>

theorem unknown_table_pipeline:
  assumes valid: "validateQuery E query = Inr ()"
    and loads: "promise_all E sched
                  (snd (start_all E w (extractTableNames E (catalog w) query)))
                  (fst (start_all E w (extractTableNames E (catalog w) query))) = (Inr (), w1)"
    and miss: "fst (get_cached E (qcache w1) (date_now E (db w1))
                      (substituteViews E viewDefinitions query query) None) = None"
  shows "set (extractTableNames E (catalog w) q) \<subseteq> fst ` set (catalog w) \<and>
         (case getEntry E (catalog w) t of
            None \<Rightarrow>
              ensureTableLoaded E w t =
                (Inl (Error (''Table '' @ t @ '' not found in catalog'')), w) \<and>
              ensure_start E w t =
                (Settled (Inl (Error (''Table '' @ t @ '' not found in catalog''))), w)
          | Some entry \<Rightarrow> True) \<and>
         (extractTableNames E (catalog w) query = [] \<longrightarrow> w1 = w) \<and>
         optimizeQuery E sched w query =
           (Inr (substituteViews E viewDefinitions query query), w1) \<and>
         issued (snd (execute_tool E sched w query)) =
           issued w1 @ [Query (substituteViews E viewDefinitions query query)] \<and>
         fst (execute_tool E sched w query) =
           fst (run_query E (substituteViews E viewDefinitions query query) w1)"
proof -
  let ?q = "substituteViews E viewDefinitions query query"
  have a: "set (extractTableNames E (catalog w) q) \<subseteq> fst ` set (catalog w)"
    by (rule extractTableNames_subset)
  have b: "(case getEntry E (catalog w) t of
            None \<Rightarrow>
              ensureTableLoaded E w t =
                (Inl (Error (''Table '' @ t @ '' not found in catalog'')), w) \<and>
              ensure_start E w t =
                (Settled (Inl (Error (''Table '' @ t @ '' not found in catalog''))), w)
          | Some entry \<Rightarrow> True)"
    by (simp add: ensureTableLoaded_def ensure_start_def split: option.splits)
  have n: "extractTableNames E (catalog w) query = [] \<longrightarrow> w1 = w"
  proof
    assume "extractTableNames E (catalog w) query = []"
    with loads show "w1 = w" by (simp add: promise_all_Nil)
  qed
  have c: "optimizeQuery E sched w query = (Inr ?q, w1)"
  proof -
    obtain tasks w0 where st: "start_all E w (extractTableNames E (catalog w) query) = (tasks, w0)"
      by (cases "start_all E w (extractTableNames E (catalog w) query)")
    with loads have "promise_all E sched w0 tasks = (Inr (), w1)" by simp
    with st show ?thesis by (simp add: optimizeQuery_def Let_def)
  qed
  have d: "execute_tool E sched w query = getOrExecute E w1 ?q (run_query E ?q) None"
    using valid c by (simp add: execute_tool_def)
  from getOrExecute_miss [OF miss] d a b n c show ?thesis by simp
qed

text \<open>
  The catalog holds the step count table only; the query reads the heart rate table.
\<close>

theorem unknown_table_pipeline_witness:
  "validateQuery accept_all ''SELECT * FROM hkquantitytypeidentifierheartrate'' = Inr () \<and>
   extractTableNames accept_all (catalog steps_unloaded)
     ''SELECT * FROM hkquantitytypeidentifierheartrate'' = [] \<and>
   promise_all accept_all []
     (snd (start_all accept_all steps_unloaded
             (extractTableNames accept_all (catalog steps_unloaded)
                ''SELECT * FROM hkquantitytypeidentifierheartrate'')))
     (fst (start_all accept_all steps_unloaded
             (extractTableNames accept_all (catalog steps_unloaded)
                ''SELECT * FROM hkquantitytypeidentifierheartrate''))) =
     (Inr (), steps_unloaded) \<and>
   fst (get_cached accept_all (qcache steps_unloaded)
          (date_now accept_all (db steps_unloaded))
          (substituteViews accept_all viewDefinitions
             ''SELECT * FROM hkquantitytypeidentifierheartrate''
             ''SELECT * FROM hkquantitytypeidentifierheartrate'') None) = None \<and>
   getEntry accept_all (catalog steps_unloaded) ''hkquantitytypeidentifierheartrate'' = None \<and>
   ensureTableLoaded accept_all steps_unloaded ''hkquantitytypeidentifierheartrate'' =
     (Inl (Error ''Table hkquantitytypeidentifierheartrate not found in catalog''), steps_unloaded) \<and>
   issued (snd (execute_tool accept_all [] steps_unloaded
                  ''SELECT * FROM hkquantitytypeidentifierheartrate'')) =
     [Query ''SELECT * FROM hkquantitytypeidentifierheartrate''] \<and>
   fst (execute_tool accept_all [] steps_unloaded
          ''SELECT * FROM hkquantitytypeidentifierheartrate'') =
     Inr \<lparr>columns = [], rows = [], rowCount_q = 0, executionTime = 0\<rparr>"
proof -
  let ?q = "''SELECT * FROM hkquantitytypeidentifierheartrate''"
  let ?t = "''hkquantitytypeidentifierheartrate''"
  have low: "toLowerCase accept_all = ascii_lower" by (simp add: engine_eval)
  have s: "substituteViews accept_all viewDefinitions ?q ?q = ?q"
    unfolding viewDefinitions_def substituteViews.simps low by (simp add: str_eval)
  have h1: "validateQuery accept_all ?q = Inr ()"
    unfolding validateQuery_def low by (simp add: forbidden_def str_eval)
  have x: "extractTableNames accept_all (catalog steps_unloaded) ?q = []"
    unfolding extractTableNames_def low
    by (simp add: getAllTables_def steps_unloaded_def str_eval)
  have h2: "promise_all accept_all []
     (snd (start_all accept_all steps_unloaded
             (extractTableNames accept_all (catalog steps_unloaded) ?q)))
     (fst (start_all accept_all steps_unloaded
             (extractTableNames accept_all (catalog steps_unloaded) ?q))) =
     (Inr (), steps_unloaded)"
    unfolding x by (simp add: promise_all_Nil)
  have h3: "fst (get_cached accept_all (qcache steps_unloaded)
          (date_now accept_all (db steps_unloaded))
          (substituteViews accept_all viewDefinitions ?q ?q) None) = None"
    unfolding s by (simp add: get_cached_def steps_unloaded_def Let_def)
  have g: "getEntry accept_all (catalog steps_unloaded) ?t = None"
    unfolding getEntry_def low by (simp add: steps_unloaded_def str_eval)
  note c = unknown_table_pipeline [OF h1 h2 h3, where q = ?q and t = ?t]
  have c1: "ensureTableLoaded accept_all steps_unloaded ?t =
     (Inl (Error ''Table hkquantitytypeidentifierheartrate not found in catalog''), steps_unloaded)"
    using c g by simp
  have c2: "issued (snd (execute_tool accept_all [] steps_unloaded ?q)) = [Query ?q]"
    using c s by (simp add: steps_unloaded_def)
  have r: "fst (run_query accept_all ?q steps_unloaded) =
     Inr \<lparr>columns = [], rows = [], rowCount_q = 0, executionTime = 0\<rparr>"
    by (simp add: run_query_def db_execute_def engine_eval Let_def)
  have c3: "fst (execute_tool accept_all [] steps_unloaded ?q) =
     Inr \<lparr>columns = [], rows = [], rowCount_q = 0, executionTime = 0\<rparr>"
    using c s r by simp
  from h1 x h2 h3 g c1 c2 c3 show ?thesis by blast
qed

text \<open>
  Claim C1 as stated fails: the heart rate table is absent from the catalog, the
  query that names it is sent to the engine, and the failure that the caller gets is
  the rejection by the engine.
\<close>

theorem unknown_table_pipeline_counterexample:
  "getEntry reject_queries (catalog steps_unloaded) ''hkquantitytypeidentifierheartrate'' = None \<and>
   str_includes (toLowerCase reject_queries ''SELECT * FROM hkquantitytypeidentifierheartrate'')
     ''hkquantitytypeidentifierheartrate'' \<and>
   fst (execute_tool reject_queries [] steps_unloaded
          ''SELECT * FROM hkquantitytypeidentifierheartrate'') =
     Inl (Error ''Catalog Error: Table does not exist!'') \<and>
   issued (snd (execute_tool reject_queries [] steps_unloaded
                  ''SELECT * FROM hkquantitytypeidentifierheartrate'')) =
     [Query ''SELECT * FROM hkquantitytypeidentifierheartrate'']"
proof -
  let ?q = "''SELECT * FROM hkquantitytypeidentifierheartrate''"
  have low: "toLowerCase reject_queries = ascii_lower" by (simp add: engine_eval)
  have s: "substituteViews reject_queries viewDefinitions ?q ?q = ?q"
    unfolding viewDefinitions_def substituteViews.simps low by (simp add: str_eval)
  have v: "validateQuery reject_queries ?q = Inr ()"
    unfolding validateQuery_def low by (simp add: forbidden_def str_eval)
  have x: "extractTableNames reject_queries (catalog steps_unloaded) ?q = []"
    unfolding extractTableNames_def low
    by (simp add: getAllTables_def steps_unloaded_def str_eval)
  have o: "optimizeQuery reject_queries [] steps_unloaded ?q = (Inr ?q, steps_unloaded)"
    by (simp add: optimizeQuery_def x s promise_all_Nil)
  have e1: "execute_tool reject_queries [] steps_unloaded ?q =
     getOrExecute reject_queries steps_unloaded ?q (run_query reject_queries ?q) None"
    by (simp add: execute_tool_def v o)
  have e2: "getOrExecute reject_queries steps_unloaded ?q (run_query reject_queries ?q) None =
     (Inl (Error ''Catalog Error: Table does not exist!''),
      steps_unloaded\<lparr>issued := [Query ?q]\<rparr>)"
    by (simp add: getOrExecute_def get_cached_def run_query_def
        db_execute_def engine_eval steps_unloaded_def getCacheKey_def Let_def)
  have e: "execute_tool reject_queries [] steps_unloaded ?q =
     (Inl (Error ''Catalog Error: Table does not exist!''),
      steps_unloaded\<lparr>issued := [Query ?q]\<rparr>)"
    using e1 e2 by simp
  have g: "getEntry reject_queries (catalog steps_unloaded) ''hkquantitytypeidentifierheartrate'' = None"
    unfolding getEntry_def low by (simp add: steps_unloaded_def str_eval)
  have i: "str_includes (toLowerCase reject_queries ?q) ''hkquantitytypeidentifierheartrate''"
    unfolding low by (simp add: str_eval)
  from g i e show ?thesis by simp
qed

end
